theory Spec2Isabelle
  imports Complex_Main "HOL-Library.Word" "HOL-Library.Log_Nat"
begin

unbundle bit_operations_syntax

section \<open>The MNIST decoder of dataset.go\<close>

text \<open>
  The file dataset.go decodes two IDX byte streams (images and labels) and joins them
  into a \<open>DataSet\<close>. The model below follows the Go source function by function.

  Conventions of the model:
  \<^item> Go's \<open>uint8\<close> is \<open>8 word\<close>, \<open>uint32\<close> is \<open>32 word\<close>, and Go's \<open>int\<close> is a
    64-bit two's complement integer (\<open>64 word\<close>, read with \<open>sint\<close>), as on amd64 and
    arm64. Arithmetic on \<open>int\<close> wraps around, as Go's does.
  \<^item> An \<open>io.Reader\<close> is modelled by the finite sequence of bytes it still has to
    deliver; after the last byte it reports \<open>io.EOF\<close>. This is the behaviour of a
    reader over a complete decompressed payload. A reader that reports some other
    error is the subject of the section on readers that fail, which repeats the
    functions for it.
  \<^item> A Go function that returns \<open>(value, error)\<close> returns a sum here, \<open>Inl\<close> being
    the error. A run-time panic is a separate outcome, \<open>Panic\<close>.
  \<^item> Memory is unbounded: \<open>make\<close> only fails for a negative length, which is the
    one failure of \<open>make\<close> that does not depend on the machine.
\<close>

type_synonym uint8 = "8 word"
type_synonym uint32 = "32 word"
type_synonym go_int = "64 word"

type_synonym reader = "uint8 list"

text \<open>
  Error values. \<open>io.EOF\<close> and \<open>io.ErrUnexpectedEOF\<close> are the two sentinel errors of
  package io; every other error in this program is made by \<open>errors.New\<close> (in
  dataset.go itself, or inside compress/gzip).
\<close>

datatype error = io_EOF | io_ErrUnexpectedEOF | errors_New string

fun Error :: "error \<Rightarrow> string" where
  "Error io_EOF = ''EOF''"
| "Error io_ErrUnexpectedEOF = ''unexpected EOF''"
| "Error (errors_New msg) = msg"

text \<open>
  Panics: an explicit \<open>panic(string)\<close>, the run-time error of an index out of range
  (with the index and the length), and the run-time error of \<open>make\<close> with a negative
  length.
\<close>

datatype panic =
    PanicString string
  | IndexOutOfRange int nat
  | MakesliceLenOutOfRange

datatype 'a outcome = Panic panic | Return 'a

subsection \<open>Library operations on the reader\<close>

text \<open>
  \<open>bufio.Reader.Discard(n)\<close>: skips \<open>n\<close> bytes; when fewer are left it returns the
  reader's error, which is \<open>io.EOF\<close>.
\<close>

definition bufio_Discard :: "reader \<Rightarrow> nat \<Rightarrow> error + reader" where
  "bufio_Discard r n = (if n \<le> length r then Inr (drop n r) else Inl io_EOF)"

text \<open>
  \<open>binary.BigEndian.Uint32\<close>:
  \<^verbatim>\<open>uint32(b[3]) | uint32(b[2])<<8 | uint32(b[1])<<16 | uint32(b[0])<<24\<close>
\<close>

definition BigEndian_Uint32 :: "uint8 \<Rightarrow> uint8 \<Rightarrow> uint8 \<Rightarrow> uint8 \<Rightarrow> uint32" where
  "BigEndian_Uint32 b0 b1 b2 b3 =
     (ucast b3 OR push_bit 8 (ucast b2) OR push_bit 16 (ucast b1) OR push_bit 24 (ucast b0))"

text \<open>
  \<open>binary.Read(r, binary.BigEndian, &params[i])\<close> for a \<open>uint32\<close>: \<open>io.ReadFull\<close> of
  four bytes, then \<open>BigEndian.Uint32\<close>. \<open>io.ReadFull\<close> reports \<open>io.EOF\<close> when no byte
  was read and \<open>io.ErrUnexpectedEOF\<close> when one to three bytes were read.
\<close>

fun binary_Read_uint32 :: "reader \<Rightarrow> error + (uint32 \<times> reader)" where
  "binary_Read_uint32 (b0 # b1 # b2 # b3 # r) = Inr (BigEndian_Uint32 b0 b1 b2 b3, r)"
| "binary_Read_uint32 [] = Inl io_EOF"
| "binary_Read_uint32 r = Inl io_ErrUnexpectedEOF"

text \<open>
  \<open>io.Copy(&buffer, &limited)\<close> with \<open>limited = io.LimitedReader{R: r, N: N}\<close>:
  copies until the limited reader reports \<open>io.EOF\<close>, which it does at once when
  \<open>N \<le> 0\<close>, after \<open>N\<close> bytes, or when \<open>r\<close> is exhausted. \<open>io.Copy\<close> does not report
  \<open>io.EOF\<close> as an error, so its error is nil (\<open>None\<close>) on this kind of reader.
  The result is the content of the buffer, the number of bytes copied, the error, and
  the reader after the copy.
\<close>

definition io_Copy_Limited :: "reader \<Rightarrow> int \<Rightarrow> uint8 list \<times> int \<times> error option \<times> reader" where
  "io_Copy_Limited r N =
     (if N \<le> 0 then ([], 0, None, r)
      else (take (nat N) r, int (length (take (nat N) r)), None, drop (nat N) r))"

text \<open>\<open>bufio.Reader.ReadByte\<close>.\<close>

fun bufio_ReadByte :: "reader \<Rightarrow> error + (uint8 \<times> reader)" where
  "bufio_ReadByte [] = Inl io_EOF"
| "bufio_ReadByte (b # r) = Inr (b, r)"

text \<open>\<open>make([]T, n)\<close>: a slice of \<open>n\<close> zero values; a negative \<open>n\<close> panics.\<close>

definition make_slice :: "go_int \<Rightarrow> 'a \<Rightarrow> 'a list outcome" where
  "make_slice n zero =
     (if sint n < 0 then Panic MakesliceLenOutOfRange else Return (replicate (nat (sint n)) zero))"

subsection \<open>readIntensities\<close>

text \<open>The loop \<open>for i := 0; i < 3; i++\<close> that reads \<open>params[i]\<close>.\<close>

fun read_params :: "nat \<Rightarrow> reader \<Rightarrow> error + (uint32 list \<times> reader)" where
  "read_params 0 r = Inr ([], r)"
| "read_params (Suc k) r =
     (case binary_Read_uint32 r of
        Inl err \<Rightarrow> Inl err
      | Inr (p, r') \<Rightarrow>
          (case read_params k r' of
             Inl err \<Rightarrow> Inl err
           | Inr (ps, r'') \<Rightarrow> Inr (p # ps, r'')))"

text \<open>
  The loop \<open>for i, b := range buffer.Bytes() { vec[i] = uint8(b) }\<close>, with Go's bounds
  check on \<open>vec[i]\<close>.
\<close>

fun copy_bytes :: "nat \<Rightarrow> uint8 list \<Rightarrow> uint8 list \<Rightarrow> uint8 list outcome" where
  "copy_bytes i [] vec = Return vec"
| "copy_bytes i (b # bs) vec =
     (if i < length vec then copy_bytes (Suc i) bs (vec[i := b])
      else Panic (IndexOutOfRange (int i) (length vec)))"

text \<open>
  The loop \<open>for j := range results\<close>; the first argument is the number of iterations
  left. Every iteration makes a \<open>LimitedReader\<close> of \<open>width * height\<close> bytes (a product
  of two \<open>int\<close>s), copies it into a fresh buffer, and fails when the copy is short.
\<close>

fun read_images :: "nat \<Rightarrow> go_int \<Rightarrow> go_int \<Rightarrow> reader \<Rightarrow> (error + uint8 list list) outcome" where
  "read_images 0 width height r = Return (Inr [])"
| "read_images (Suc k) width height r =
     (case io_Copy_Limited r (sint (width * height)) of
        (buffer, n, Some err, r') \<Rightarrow> Return (Inl err)
      | (buffer, n, None, r') \<Rightarrow>
          if n < sint (width * height)
          then Return (Inl (errors_New ''not enough data for image''))
          else
            (case make_slice (width * height) 0 of
               Panic p \<Rightarrow> Panic p
             | Return vec0 \<Rightarrow>
                 (case copy_bytes 0 buffer vec0 of
                    Panic p \<Rightarrow> Panic p
                  | Return vec \<Rightarrow>
                      (case read_images k width height r' of
                         Panic p \<Rightarrow> Panic p
                       | Return (Inl err) \<Rightarrow> Return (Inl err)
                       | Return (Inr rest) \<Rightarrow> Return (Inr (vec # rest))))))"

text \<open>
  \<open>readIntensities\<close> returns \<open>(results, width, height, err)\<close>; on an error the first
  three are \<open>nil, 0, 0\<close>, so the model returns the error alone.
\<close>

definition readIntensities :: "reader \<Rightarrow> (error + (uint8 list list \<times> go_int \<times> go_int)) outcome" where
  "readIntensities reader =
     (case bufio_Discard reader 4 of
        Inl err \<Rightarrow> Return (Inl err)
      | Inr r \<Rightarrow>
          (case read_params 3 r of
             Inl err \<Rightarrow> Return (Inl err)
           | Inr (params, r') \<Rightarrow>
               (let count = (ucast (params ! 0) :: go_int);
                    width = (ucast (params ! 1) :: go_int);
                    height = (ucast (params ! 2) :: go_int)
                in case make_slice count ([] :: uint8 list) of
                     Panic p \<Rightarrow> Panic p
                   | Return results0 \<Rightarrow>
                       (case read_images (length results0) width height r' of
                          Panic p \<Rightarrow> Panic p
                        | Return (Inl err) \<Rightarrow> Return (Inl err)
                        | Return (Inr results) \<Rightarrow> Return (Inr (results, width, height))))))"

subsection \<open>readLabels\<close>

text \<open>The loop \<open>for i := range res\<close>, one \<open>ReadByte\<close> per label.\<close>

fun read_label_bytes :: "nat \<Rightarrow> reader \<Rightarrow> error + go_int list" where
  "read_label_bytes 0 r = Inr []"
| "read_label_bytes (Suc k) r =
     (case bufio_ReadByte r of
        Inl err \<Rightarrow> Inl err
      | Inr (label, r') \<Rightarrow>
          (case read_label_bytes k r' of
             Inl err \<Rightarrow> Inl err
           | Inr rest \<Rightarrow> Inr (ucast label # rest)))"

definition readLabels :: "reader \<Rightarrow> go_int \<Rightarrow> (error + go_int list) outcome" where
  "readLabels reader count =
     (case bufio_Discard reader 8 of
        Inl err \<Rightarrow> Return (Inl err)
      | Inr r \<Rightarrow>
          (case make_slice count (0 :: go_int) of
             Panic p \<Rightarrow> Panic p
           | Return res0 \<Rightarrow>
               (case read_label_bytes (length res0) r of
                  Inl err \<Rightarrow> Return (Inl err)
                | Inr res \<Rightarrow> Return (Inr res))))"

subsection \<open>float64\<close>

text \<open>
  A finite \<open>float64\<close> is modelled by the rational number it denotes. The only
  floating-point operations of dataset.go are the conversion \<open>float64(x)\<close> of a
  \<open>uint8\<close>, which is exact, and the division by the constant \<open>255.0\<close>. IEEE 754
  division returns the exact quotient rounded to the nearest number with a 53-bit
  significand, ties to the even significand. \<open>round_float64\<close> is that rounding for a
  quotient that is zero or in the range of the normal numbers, which holds for every
  quotient \<open>x / 255\<close> with \<open>0 \<le> x \<le> 255\<close>.
\<close>

type_synonym float64 = rat

definition pow2 :: "int \<Rightarrow> rat" where
  "pow2 e = (if 0 \<le> e then 2 ^ nat e else 1 / 2 ^ nat (- e))"

text \<open>The exponent \<open>e\<close> with \<open>2 ^ e \<le> q < 2 ^ (e + 1)\<close>, for a positive \<open>q\<close>.\<close>

definition exponent_of :: "rat \<Rightarrow> int" where
  "exponent_of q =
     (let (n, d) = quotient_of q;
          k = int (floorlog 2 (nat n)) - int (floorlog 2 (nat d))
      in if pow2 k \<le> q then k else k - 1)"

definition round_half_even :: "rat \<Rightarrow> int" where
  "round_half_even x =
     (let f = \<lfloor>x\<rfloor>; d = x - of_int f
      in if d < 1 / 2 then f
         else if 1 / 2 < d then f + 1
         else if even f then f else f + 1)"

definition round_float64 :: "rat \<Rightarrow> float64" where
  "round_float64 q =
     (if q = 0 then 0
      else let u = pow2 (exponent_of \<bar>q\<bar> - 52)
           in sgn q * of_int (round_half_even (\<bar>q\<bar> / u)) * u)"

definition float64_of_uint8 :: "uint8 \<Rightarrow> float64" where
  "float64_of_uint8 x = of_nat (unat x)"

definition float64_div :: "float64 \<Rightarrow> float64 \<Rightarrow> float64" where
  "float64_div a b = round_float64 (a / b)"

subsection \<open>Sample and DataSet\<close>

record Sample =
  Intensities :: "float64 list"
  Label :: go_int

record DataSet =
  Samples :: "Sample list"
  Width :: go_int
  Height :: go_int

subsection \<open>assetReader\<close>

text \<open>
  The four embedded files (\<open>//go:embed data/...\<close>) are not part of the source text,
  and \<open>gzip.NewReader\<close> belongs to the standard library; both are parameters of the
  model. \<open>gzip_NewReader\<close> maps the compressed bytes to the error of
  \<open>gzip.NewReader\<close> or to the reader of the decompressed payload.

  \<open>assetReader\<close> prints the length of the compressed file on standard output
  (\<open>fmt.Println(r.Len())\<close>); the model threads the list of the numbers printed so far.
\<close>

record embedded =
  TrainData :: "uint8 list"
  TestData :: "uint8 list"
  TrainLabels :: "uint8 list"
  TestLabels :: "uint8 list"

definition assetReader ::
  "(uint8 list \<Rightarrow> error + reader) \<Rightarrow> embedded \<Rightarrow> string \<Rightarrow> nat list \<Rightarrow> nat list \<times> reader outcome" where
  "assetReader gzip_NewReader files name out =
     (case (if name = ''t10k-images-idx3-ubyte.gz'' then Return (TestData files)
            else if name = ''train-images-idx3-ubyte.gz'' then Return (TrainData files)
            else if name = ''t10k-labels-idx1-ubyte.gz'' then Return (TestLabels files)
            else if name = ''train-labels-idx1-ubyte.gz'' then Return (TrainLabels files)
            else Panic (PanicString (''file not found: '' @ name))) of
        Panic p \<Rightarrow> (out, Panic p)
      | Return data \<Rightarrow>
          (case gzip_NewReader data of
             Inl err \<Rightarrow>
               (out @ [length data],
                Panic (PanicString (''could not decompress '' @ name @ '': '' @ Error err)))
           | Inr reader \<Rightarrow> (out @ [length data], Return reader)))"

subsection \<open>loadDataSet\<close>

text \<open>
  The loop \<open>for i := range dataSet.Samples\<close>: the intensities of sample \<open>i\<close> are
  \<open>float64(x) / 255.0\<close> for every byte \<open>x\<close> of \<open>intensities[i]\<close>, its label is
  \<open>labels[i]\<close>, with Go's bounds check.
\<close>

fun make_samples :: "nat \<Rightarrow> uint8 list list \<Rightarrow> go_int list \<Rightarrow> Sample list outcome" where
  "make_samples i [] labels = Return []"
| "make_samples i (img # images) labels =
     (let floats = map (\<lambda>x. float64_div (float64_of_uint8 x) 255) img
      in if i < length labels
         then (case make_samples (Suc i) images labels of
                 Panic p \<Rightarrow> Panic p
               | Return samples \<Rightarrow>
                   Return (\<lparr>Intensities = floats, Label = labels ! i\<rparr> # samples))
         else Panic (IndexOutOfRange (int i) (length labels)))"

definition loadDataSet ::
  "(uint8 list \<Rightarrow> error + reader) \<Rightarrow> embedded \<Rightarrow> string \<Rightarrow> nat list \<Rightarrow> nat list \<times> DataSet outcome" where
  "loadDataSet gzip_NewReader files prefix out =
     (let labelFilename = prefix @ ''-labels-idx1-ubyte.gz'';
          imageFilename = prefix @ ''-images-idx3-ubyte.gz''
      in case assetReader gzip_NewReader files imageFilename out of
           (out1, Panic p) \<Rightarrow> (out1, Panic p)
         | (out1, Return imageReader) \<Rightarrow>
             (case readIntensities imageReader of
                Panic p \<Rightarrow> (out1, Panic p)
              | Return (Inl err) \<Rightarrow>
                  (out1, Panic (PanicString (''failed to read images: '' @ Error err)))
              | Return (Inr (intensities, w, h)) \<Rightarrow>
                  (case assetReader gzip_NewReader files labelFilename out1 of
                     (out2, Panic p) \<Rightarrow> (out2, Panic p)
                   | (out2, Return labelReader) \<Rightarrow>
                       (case readLabels labelReader (of_nat (length intensities)) of
                          Panic p \<Rightarrow> (out2, Panic p)
                        | Return (Inl err) \<Rightarrow>
                            (out2, Panic (PanicString (''failed to read labels: '' @ Error err)))
                        | Return (Inr labels) \<Rightarrow>
                            (case make_samples 0 intensities labels of
                               Panic p \<Rightarrow> (out2, Panic p)
                             | Return samples \<Rightarrow>
                                 (out2, Return \<lparr>Samples = samples, Width = w, Height = h\<rparr>))))))"

definition LoadTrainingDataSet ::
  "(uint8 list \<Rightarrow> error + reader) \<Rightarrow> embedded \<Rightarrow> nat list \<Rightarrow> nat list \<times> DataSet outcome" where
  "LoadTrainingDataSet gzip_NewReader files out = loadDataSet gzip_NewReader files ''train'' out"

definition LoadTestingDataSet ::
  "(uint8 list \<Rightarrow> error + reader) \<Rightarrow> embedded \<Rightarrow> nat list \<Rightarrow> nat list \<times> DataSet outcome" where
  "LoadTestingDataSet gzip_NewReader files out = loadDataSet gzip_NewReader files ''t10k'' out"

subsection \<open>IntensityVectors and LabelVectors\<close>

definition IntensityVectors :: "DataSet \<Rightarrow> float64 list list" where
  "IntensityVectors d = map Intensities (Samples d)"

text \<open>
  The loop of \<open>LabelVectors\<close>: \<open>res[i] = make([]float64, 10)\<close>, then
  \<open>res[i][sample.Label] = 1\<close>, which panics when the label is not an index of the
  ten-element slice.
\<close>

fun label_vectors :: "Sample list \<Rightarrow> float64 list list outcome" where
  "label_vectors [] = Return []"
| "label_vectors (sample # samples) =
     (let vec = replicate 10 (0 :: float64)
      in if 0 \<le> sint (Label sample) \<and> sint (Label sample) < 10
         then (case label_vectors samples of
                 Panic p \<Rightarrow> Panic p
               | Return res \<Rightarrow> Return (vec[nat (sint (Label sample)) := 1] # res))
         else Panic (IndexOutOfRange (sint (Label sample)) 10))"

definition LabelVectors :: "DataSet \<Rightarrow> float64 list list outcome" where
  "LabelVectors d = label_vectors (Samples d)"

subsection \<open>The layout of the image stream\<close>

text \<open>
  The layout table of the specification gives the header fields as big-endian 32-bit
  unsigned integers at the byte offsets 4, 8 and 12. \<open>uint32_be_at s i\<close> is that
  reading of the four bytes at offset \<open>i\<close>, written as arithmetic; it is the
  specification's side of the comparison with \<open>BigEndian_Uint32\<close>, which is how
  the code computes the value.
\<close>

definition uint32_be_at :: "uint8 list \<Rightarrow> nat \<Rightarrow> nat" where
  "uint32_be_at s i = unat (s ! i) * 2 ^ 24 + unat (s ! (i + 1)) * 2 ^ 16 + unat (s ! (i + 2)) * 2 ^ 8 + unat (s ! (i + 3))"


section \<open>Readers that fail\<close>

text \<open>
  The reader that \<open>gzip.NewReader\<close> returns decompresses while it is read, and it
  can fail then: with \<open>io.ErrUnexpectedEOF\<close> on a truncated file, with an error of
  the decompressor on corrupt data, with \<open>gzip: invalid checksum\<close> when the end of
  the data is reached and the checksum of the file does not match. This section
  repeats the functions of dataset.go for such a reader. \<open>Stream e bs\<close> is the
  reader that delivers the bytes \<open>bs\<close> and reports the error \<open>e\<close> when it is read
  after the last of them; \<open>Stream io_EOF bs\<close> is the reader of the sections above.

  Both decoders read through a \<open>bufio.Reader\<close>, which hands on the bytes it got
  before the error it got with them: \<open>Discard\<close> returns nil once the bytes are
  skipped, \<open>ReadByte\<close> and \<open>Read\<close> look at the stored error only when the buffer is
  empty. So the decoder sees the error \<open>e\<close> exactly when it asks for a byte beyond
  \<open>bs\<close>. (One case is left out: a \<open>Read\<close> of 4096 bytes or more into an empty
  buffer goes to the underlying reader directly and returns its bytes and its error
  together. The model takes the reader to report its error on a read of its own.)
\<close>

datatype stream = Stream error "uint8 list"

text \<open>\<open>bufio.Reader.Discard(n)\<close>: when fewer bytes are left, the reader's error.\<close>

fun bufio_Discard_f :: "stream \<Rightarrow> nat \<Rightarrow> error + stream" where
  "bufio_Discard_f (Stream e bs) n =
     (if n \<le> length bs then Inr (Stream e (drop n bs)) else Inl e)"

text \<open>
  \<open>binary.Read\<close> of a \<open>uint32\<close>, that is \<open>io.ReadFull\<close> of four bytes: with no byte
  read it returns the reader's error; with one to three bytes read it returns
  \<open>io.ErrUnexpectedEOF\<close> if the reader's error is \<open>io.EOF\<close>, and the reader's error
  otherwise.
\<close>

fun binary_Read_uint32_f :: "stream \<Rightarrow> error + (uint32 \<times> stream)" where
  "binary_Read_uint32_f (Stream e (b0 # b1 # b2 # b3 # r)) =
     Inr (BigEndian_Uint32 b0 b1 b2 b3, Stream e r)"
| "binary_Read_uint32_f (Stream e []) = Inl e"
| "binary_Read_uint32_f (Stream e r) = Inl (if e = io_EOF then io_ErrUnexpectedEOF else e)"

text \<open>
  \<open>io.Copy(&buffer, &limited)\<close>: the limited reader reports \<open>io.EOF\<close> after \<open>N\<close>
  bytes without reading further, and \<open>io.Copy\<close> then returns nil. When the reader
  ends before that, \<open>io.Copy\<close> returns nil for \<open>io.EOF\<close> and the reader's error for
  any other error.
\<close>

fun io_Copy_Limited_f :: "stream \<Rightarrow> int \<Rightarrow> uint8 list \<times> int \<times> error option \<times> stream" where
  "io_Copy_Limited_f (Stream e bs) N =
     (if N \<le> 0 then ([], 0, None, Stream e bs)
      else if nat N \<le> length bs
      then (take (nat N) bs, N, None, Stream e (drop (nat N) bs))
      else (bs, int (length bs), (if e = io_EOF then None else Some e), Stream e []))"

fun bufio_ReadByte_f :: "stream \<Rightarrow> error + (uint8 \<times> stream)" where
  "bufio_ReadByte_f (Stream e []) = Inl e"
| "bufio_ReadByte_f (Stream e (b # r)) = Inr (b, Stream e r)"

fun read_params_f :: "nat \<Rightarrow> stream \<Rightarrow> error + (uint32 list \<times> stream)" where
  "read_params_f 0 r = Inr ([], r)"
| "read_params_f (Suc k) r =
     (case binary_Read_uint32_f r of
        Inl err \<Rightarrow> Inl err
      | Inr (p, r') \<Rightarrow>
          (case read_params_f k r' of
             Inl err \<Rightarrow> Inl err
           | Inr (ps, r'') \<Rightarrow> Inr (p # ps, r'')))"

fun read_images_f :: "nat \<Rightarrow> go_int \<Rightarrow> go_int \<Rightarrow> stream \<Rightarrow> (error + uint8 list list) outcome" where
  "read_images_f 0 width height r = Return (Inr [])"
| "read_images_f (Suc k) width height r =
     (case io_Copy_Limited_f r (sint (width * height)) of
        (buffer, n, Some err, r') \<Rightarrow> Return (Inl err)
      | (buffer, n, None, r') \<Rightarrow>
          if n < sint (width * height)
          then Return (Inl (errors_New ''not enough data for image''))
          else
            (case make_slice (width * height) 0 of
               Panic p \<Rightarrow> Panic p
             | Return vec0 \<Rightarrow>
                 (case copy_bytes 0 buffer vec0 of
                    Panic p \<Rightarrow> Panic p
                  | Return vec \<Rightarrow>
                      (case read_images_f k width height r' of
                         Panic p \<Rightarrow> Panic p
                       | Return (Inl err) \<Rightarrow> Return (Inl err)
                       | Return (Inr rest) \<Rightarrow> Return (Inr (vec # rest))))))"

definition readIntensities_f :: "stream \<Rightarrow> (error + (uint8 list list \<times> go_int \<times> go_int)) outcome" where
  "readIntensities_f reader =
     (case bufio_Discard_f reader 4 of
        Inl err \<Rightarrow> Return (Inl err)
      | Inr r \<Rightarrow>
          (case read_params_f 3 r of
             Inl err \<Rightarrow> Return (Inl err)
           | Inr (params, r') \<Rightarrow>
               (let count = (ucast (params ! 0) :: go_int);
                    width = (ucast (params ! 1) :: go_int);
                    height = (ucast (params ! 2) :: go_int)
                in case make_slice count ([] :: uint8 list) of
                     Panic p \<Rightarrow> Panic p
                   | Return results0 \<Rightarrow>
                       (case read_images_f (length results0) width height r' of
                          Panic p \<Rightarrow> Panic p
                        | Return (Inl err) \<Rightarrow> Return (Inl err)
                        | Return (Inr results) \<Rightarrow> Return (Inr (results, width, height))))))"

fun read_label_bytes_f :: "nat \<Rightarrow> stream \<Rightarrow> error + go_int list" where
  "read_label_bytes_f 0 r = Inr []"
| "read_label_bytes_f (Suc k) r =
     (case bufio_ReadByte_f r of
        Inl err \<Rightarrow> Inl err
      | Inr (label, r') \<Rightarrow>
          (case read_label_bytes_f k r' of
             Inl err \<Rightarrow> Inl err
           | Inr rest \<Rightarrow> Inr (ucast label # rest)))"

definition readLabels_f :: "stream \<Rightarrow> go_int \<Rightarrow> (error + go_int list) outcome" where
  "readLabels_f reader count =
     (case bufio_Discard_f reader 8 of
        Inl err \<Rightarrow> Return (Inl err)
      | Inr r \<Rightarrow>
          (case make_slice count (0 :: go_int) of
             Panic p \<Rightarrow> Panic p
           | Return res0 \<Rightarrow>
               (case read_label_bytes_f (length res0) r of
                  Inl err \<Rightarrow> Return (Inl err)
                | Inr res \<Rightarrow> Return (Inr res))))"

text \<open>
  \<open>gzip_NewReader\<close> now maps the compressed bytes to the error of \<open>gzip.NewReader\<close>
  or to the reader it returns, which may fail later.
\<close>

definition assetReader_f ::
  "(uint8 list \<Rightarrow> error + stream) \<Rightarrow> embedded \<Rightarrow> string \<Rightarrow> nat list \<Rightarrow> nat list \<times> stream outcome" where
  "assetReader_f gzip_NewReader files name out =
     (case (if name = ''t10k-images-idx3-ubyte.gz'' then Return (TestData files)
            else if name = ''train-images-idx3-ubyte.gz'' then Return (TrainData files)
            else if name = ''t10k-labels-idx1-ubyte.gz'' then Return (TestLabels files)
            else if name = ''train-labels-idx1-ubyte.gz'' then Return (TrainLabels files)
            else Panic (PanicString (''file not found: '' @ name))) of
        Panic p \<Rightarrow> (out, Panic p)
      | Return data \<Rightarrow>
          (case gzip_NewReader data of
             Inl err \<Rightarrow>
               (out @ [length data],
                Panic (PanicString (''could not decompress '' @ name @ '': '' @ Error err)))
           | Inr reader \<Rightarrow> (out @ [length data], Return reader)))"

definition loadDataSet_f ::
  "(uint8 list \<Rightarrow> error + stream) \<Rightarrow> embedded \<Rightarrow> string \<Rightarrow> nat list \<Rightarrow> nat list \<times> DataSet outcome" where
  "loadDataSet_f gzip_NewReader files prefix out =
     (let labelFilename = prefix @ ''-labels-idx1-ubyte.gz'';
          imageFilename = prefix @ ''-images-idx3-ubyte.gz''
      in case assetReader_f gzip_NewReader files imageFilename out of
           (out1, Panic p) \<Rightarrow> (out1, Panic p)
         | (out1, Return imageReader) \<Rightarrow>
             (case readIntensities_f imageReader of
                Panic p \<Rightarrow> (out1, Panic p)
              | Return (Inl err) \<Rightarrow>
                  (out1, Panic (PanicString (''failed to read images: '' @ Error err)))
              | Return (Inr (intensities, w, h)) \<Rightarrow>
                  (case assetReader_f gzip_NewReader files labelFilename out1 of
                     (out2, Panic p) \<Rightarrow> (out2, Panic p)
                   | (out2, Return labelReader) \<Rightarrow>
                       (case readLabels_f labelReader (of_nat (length intensities)) of
                          Panic p \<Rightarrow> (out2, Panic p)
                        | Return (Inl err) \<Rightarrow>
                            (out2, Panic (PanicString (''failed to read labels: '' @ Error err)))
                        | Return (Inr labels) \<Rightarrow>
                            (case make_samples 0 intensities labels of
                               Panic p \<Rightarrow> (out2, Panic p)
                             | Return samples \<Rightarrow>
                                 (out2, Return \<lparr>Samples = samples, Width = w, Height = h\<rparr>))))))"

definition LoadTrainingDataSet_f ::
  "(uint8 list \<Rightarrow> error + stream) \<Rightarrow> embedded \<Rightarrow> nat list \<Rightarrow> nat list \<times> DataSet outcome" where
  "LoadTrainingDataSet_f gzip_NewReader files out = loadDataSet_f gzip_NewReader files ''train'' out"

definition LoadTestingDataSet_f ::
  "(uint8 list \<Rightarrow> error + stream) \<Rightarrow> embedded \<Rightarrow> nat list \<Rightarrow> nat list \<times> DataSet outcome" where
  "LoadTestingDataSet_f gzip_NewReader files out = loadDataSet_f gzip_NewReader files ''t10k'' out"


section \<open>Properties\<close>

subsection \<open>Machine integers\<close>

lemma uint_ucast_8_32: "uint (ucast (b :: uint8) :: uint32) = uint b"
  by (simp add: uint_up_ucast is_up)

lemma uint_ucast_8_64: "uint (ucast (b :: uint8) :: go_int) = uint b"
  by (simp add: uint_up_ucast is_up)

lemma uint_ucast_32_64: "uint (ucast (p :: uint32) :: go_int) = uint p"
  by (simp add: uint_up_ucast is_up)

lemma uint_byte_lt: "uint (b :: uint8) < 256"
  using uint_lt2p [of b] by simp

lemma uint_uint32_lt: "uint (p :: uint32) < 4294967296"
  using uint_lt2p [of p] by simp

lemma sint_go_int:
  "sint (x :: go_int) =
     (if uint x < 9223372036854775808 then uint x else uint x - 18446744073709551616)"
proof -
  have lt: "uint x < 18446744073709551616" using uint_lt2p [of x] by simp
  have ge: "0 \<le> uint x" by simp
  have s: "sint x = (uint x + 9223372036854775808) mod 18446744073709551616 - 9223372036854775808"
    by (simp add: sint_uint signed_take_bit_eq_take_bit_shift take_bit_eq_mod add.commute)
  show ?thesis
  proof (cases "uint x < 9223372036854775808")
    case True
    then have "(uint x + 9223372036854775808) mod 18446744073709551616 = uint x + 9223372036854775808"
      using ge by (intro mod_pos_pos_trivial) linarith+
    with s True show ?thesis by simp
  next
    case False
    have "(uint x + 9223372036854775808) mod 18446744073709551616
        = (uint x - 9223372036854775808 + 18446744073709551616) mod 18446744073709551616"
      by (rule arg_cong [where f = "\<lambda>v. v mod 18446744073709551616"]) linarith
    also have "\<dots> = (uint x - 9223372036854775808) mod 18446744073709551616"
      by (rule mod_add_self2)
    also have "\<dots> = uint x - 9223372036854775808"
      using False lt by (intro mod_pos_pos_trivial) linarith+
    finally show ?thesis using s False by simp
  qed
qed

lemma BigEndian_Uint32_plus:
  "BigEndian_Uint32 b0 b1 b2 b3 =
     ucast b3 + (push_bit 8 (ucast b2) + (push_bit 16 (ucast b1) + push_bit 24 (ucast b0)))"
proof -
  have a: "push_bit 16 (ucast b1 :: uint32) + push_bit 24 (ucast b0)
        = push_bit 16 (ucast b1) OR push_bit 24 (ucast b0)"
    by (rule disjunctive_add_eq_or, rule bit_eqI) (auto simp add: bit_simps dest: bit_imp_le_length)
  have b: "push_bit 8 (ucast b2 :: uint32) + (push_bit 16 (ucast b1) OR push_bit 24 (ucast b0))
        = push_bit 8 (ucast b2) OR (push_bit 16 (ucast b1) OR push_bit 24 (ucast b0))"
    by (rule disjunctive_add_eq_or, rule bit_eqI) (auto simp add: bit_simps dest: bit_imp_le_length)
  have c: "(ucast b3 :: uint32) + (push_bit 8 (ucast b2) OR (push_bit 16 (ucast b1) OR push_bit 24 (ucast b0)))
        = ucast b3 OR (push_bit 8 (ucast b2) OR (push_bit 16 (ucast b1) OR push_bit 24 (ucast b0)))"
    by (rule disjunctive_add_eq_or, rule bit_eqI) (auto simp add: bit_simps dest: bit_imp_le_length)
  show ?thesis
    unfolding BigEndian_Uint32_def a b c by (simp add: ac_simps)
qed


lemma uint_push_bit_byte:
  assumes "k \<le> 24"
  shows "uint (push_bit k (ucast (b :: uint8) :: uint32)) = uint b * 2 ^ k"
proof -
  have "uint b * 2 ^ k < 2 ^ 8 * 2 ^ k"
    using uint_byte_lt [of b] by simp
  also have "\<dots> = (2::int) ^ (8 + k)" by (simp add: power_add)
  also have "\<dots> \<le> 2 ^ 32" using assms by (intro power_increasing) auto
  finally have lt: "uint b * 2 ^ k < 2 ^ 32" .
  have "uint (push_bit k (ucast b :: uint32)) = (uint (ucast b :: uint32) * 2 ^ k) mod 2 ^ 32"
    unfolding unsigned_push_bit_eq by (simp add: take_bit_eq_mod push_bit_eq_mult)
  then show ?thesis using lt by (simp add: uint_ucast_8_32)
qed

lemma uint_BigEndian_Uint32:
  "uint (BigEndian_Uint32 b0 b1 b2 b3) = uint b0 * 16777216 + uint b1 * 65536 + uint b2 * 256 + uint b3"
proof -
  have "0 \<le> uint b0" "0 \<le> uint b1" "0 \<le> uint b2" "0 \<le> uint b3" by simp_all
  then have "uint b0 * 16777216 + uint b1 * 65536 + uint b2 * 256 + uint b3 < 4294967296"
    and "0 \<le> uint b0 * 16777216 + uint b1 * 65536 + uint b2 * 256 + uint b3"
    using uint_byte_lt [of b0] uint_byte_lt [of b1] uint_byte_lt [of b2] uint_byte_lt [of b3]
    by linarith+
  then have "(uint b0 * 16777216 + uint b1 * 65536 + uint b2 * 256 + uint b3) mod 4294967296
      = uint b0 * 16777216 + uint b1 * 65536 + uint b2 * 256 + uint b3"
    by (intro mod_pos_pos_trivial)
  moreover have "uint (BigEndian_Uint32 b0 b1 b2 b3)
      = (uint b0 * 16777216 + uint b1 * 65536 + uint b2 * 256 + uint b3) mod 4294967296"
    unfolding BigEndian_Uint32_plus
    by (simp add: uint_word_ariths uint_push_bit_byte uint_ucast_8_32 mod_simps add.commute add.left_commute)
  ultimately show ?thesis by simp
qed

lemma uint_mult_ucast: "uint (ucast (a :: uint32) * ucast (b :: uint32) :: go_int) = uint a * uint b"
proof -
  have "uint a * uint b < 4294967296 * 4294967296"
    using uint_uint32_lt [of a] uint_uint32_lt [of b]
    by (intro mult_strict_mono) auto
  then show ?thesis
    by (simp add: uint_word_ariths uint_ucast_32_64)
qed

lemma unat_BigEndian_Uint32:
  "unat (BigEndian_Uint32 (s ! i) (s ! (i + 1)) (s ! (i + 2)) (s ! (i + 3))) = uint32_be_at s i"
proof -
  have "int (unat (BigEndian_Uint32 (s ! i) (s ! (i + 1)) (s ! (i + 2)) (s ! (i + 3)))) = int (uint32_be_at s i)"
    unfolding uint32_be_at_def by (simp add: uint_BigEndian_Uint32)
  then show ?thesis by (simp only: of_nat_eq_iff)
qed

lemma sint_product:
  fixes W H :: uint32
  shows "sint (ucast W * ucast H :: go_int) =
     (if int (unat W * unat H) < 9223372036854775808 then int (unat W * unat H)
      else int (unat W * unat H) - 18446744073709551616)"
proof -
  have "uint (ucast W * ucast H :: go_int) = int (unat W * unat H)"
    by (simp add: uint_mult_ucast)
  then show ?thesis by (simp only: sint_go_int)
qed

lemma sint_product_negative:
  fixes W H :: uint32
  assumes "\<not> int (unat W * unat H) < 9223372036854775808"
  shows "sint (ucast W * ucast H :: go_int) < 0"
proof -
  have "int (unat W * unat H) < 18446744073709551616"
    using uint_lt2p [of "ucast W * ucast H :: go_int"] by (simp add: uint_mult_ucast)
  then show ?thesis using assms unfolding sint_product by simp
qed


subsection \<open>The loops of the image decoder\<close>

lemma copy_bytes_within:
  "i + length bs \<le> length vec \<Longrightarrow>
   copy_bytes i bs vec = Return (take i vec @ bs @ drop (i + length bs) vec)"
proof (induction bs arbitrary: i vec)
  case Nil
  then show ?case by simp
next
  case (Cons b bs)
  then have i: "i < length vec" by simp
  from Cons.prems have "Suc i + length bs \<le> length (vec[i := b])" by simp
  then have "copy_bytes (Suc i) bs (vec[i := b])
      = Return (take (Suc i) (vec[i := b]) @ bs @ drop (Suc i + length bs) (vec[i := b]))"
    by (rule Cons.IH)
  moreover have "take (Suc i) (vec[i := b]) = take i vec @ [b]"
    using i by (simp add: take_Suc_conv_app_nth)
  moreover have "drop (Suc i + length bs) (vec[i := b]) = drop (Suc i + length bs) vec"
    by simp
  ultimately show ?case using i by simp
qed

lemma copy_bytes_whole:
  "length buffer = n \<Longrightarrow> copy_bytes 0 buffer (replicate n z) = Return buffer"
  by (simp add: copy_bytes_within)

lemma read_images_nonneg:
  assumes "0 \<le> sint (width * height)"
  shows "read_images k width height r =
     (if k * nat (sint (width * height)) \<le> length r
      then Return (Inr (map (\<lambda>j. take (nat (sint (width * height))) (drop (j * nat (sint (width * height))) r)) [0..<k]))
      else Return (Inl (errors_New ''not enough data for image'')))"
proof (induction k arbitrary: r)
  case 0
  then show ?case by simp
next
  case (Suc k)
  define n where "n = nat (sint (width * height))"
  have N: "sint (width * height) = int n" using assms by (simp add: n_def)
  show ?case
  proof (cases "n \<le> length r")
    case False
    then have "n > 0" by simp
    then have "io_Copy_Limited r (int n) = (take n r, int (length r), None, drop n r)"
      using False by (simp add: io_Copy_Limited_def)
    moreover have "\<not> Suc k * n \<le> length r" using False by (simp add: add.commute trans_le_add1)
    ultimately show ?thesis using False by (simp add: N)
  next
    case True
    have cp: "io_Copy_Limited r (int n) = (take n r, int n, None, drop n r)"
      using True by (cases "n = 0") (simp_all add: io_Copy_Limited_def)
    have mk: "make_slice (width * height) (0::uint8) = Return (replicate n 0)"
      by (simp add: make_slice_def N)
    have cb: "copy_bytes 0 (take n r) (replicate n 0) = Return (take n r)"
      using True by (intro copy_bytes_whole) simp
    have cond: "Suc k * n \<le> length r \<longleftrightarrow> k * n \<le> length (drop n r)"
      using True by auto
    have shift: "map (\<lambda>j. take n (drop (j * n) r)) [0..<Suc k]
        = take n r # map (\<lambda>j. take n (drop (j * n) (drop n r))) [0..<k]"
      by (simp add: map_upt_Suc del: upt_Suc) (simp add: add.commute)
    show ?thesis
      unfolding read_images.simps N cp
      apply (simp only: prod.case option.case mk cb outcome.case simp_thms if_False)
      apply (subst Suc.IH [unfolded N])
      unfolding N [symmetric] n_def [symmetric]
      unfolding cond shift
      apply (simp del: upt_Suc)
      done
  qed
qed

lemma read_images_negative:
  "sint (width * height) < 0 \<Longrightarrow> read_images (Suc k) width height r = Panic MakesliceLenOutOfRange"
  by (simp add: io_Copy_Limited_def make_slice_def)

lemma binary_Read_uint32_eq:
  "binary_Read_uint32 r =
     (if 4 \<le> length r then Inr (BigEndian_Uint32 (r ! 0) (r ! 1) (r ! 2) (r ! 3), drop 4 r)
      else if r = [] then Inl io_EOF else Inl io_ErrUnexpectedEOF)"
  by (induction r rule: binary_Read_uint32.induct) simp_all

lemma read_params_eq:
  "read_params k r =
     (if 4 * k \<le> length r
      then Inr (map (\<lambda>i. BigEndian_Uint32 (r ! (4 * i)) (r ! (4 * i + 1)) (r ! (4 * i + 2)) (r ! (4 * i + 3))) [0..<k],
                drop (4 * k) r)
      else Inl (if length r mod 4 = 0 then io_EOF else io_ErrUnexpectedEOF))"
proof (induction k arbitrary: r)
  case 0
  then show ?case by simp
next
  case (Suc k)
  show ?case
  proof (cases "4 \<le> length r")
    case False
    then have "length r mod 4 = 0 \<longleftrightarrow> r = []" by auto
    with False show ?thesis by (simp add: binary_Read_uint32_eq)
  next
    case True
    have m: "(length r - 4) mod 4 = length r mod 4"
      using True by (simp add: le_mod_geq)
    have c: "4 * k \<le> length r - 4 \<longleftrightarrow> 4 * Suc k \<le> length r" using True by auto
    have sh: "map (\<lambda>i. BigEndian_Uint32 (r ! (4 * i)) (r ! (4 * i + 1)) (r ! (4 * i + 2)) (r ! (4 * i + 3))) [0..<Suc k]
      = BigEndian_Uint32 (r ! 0) (r ! 1) (r ! 2) (r ! 3)
        # map (\<lambda>i. BigEndian_Uint32 (drop 4 r ! (4 * i)) (drop 4 r ! (4 * i + 1)) (drop 4 r ! (4 * i + 2)) (drop 4 r ! (4 * i + 3))) [0..<k]"
      if "4 * Suc k \<le> length r"
      using that True by (simp add: map_upt_Suc del: upt_Suc) (simp add: add.commute add.left_commute numeral_2_eq_2)
    show ?thesis
    proof (cases "4 * Suc k \<le> length r")
      case False
      with True show ?thesis
        by (simp add: binary_Read_uint32_eq Suc.IH m c del: upt_Suc)
    next
      case le: True
      have dr: "drop (4 * k) (drop 4 r) = drop (4 * Suc k) r" by (simp add: add.commute)
      from le True show ?thesis
        unfolding read_params.simps
        by (simp only: binary_Read_uint32_eq Suc.IH sh [OF le] dr c length_drop if_True
              sum.case prod.case)
    qed
  qed
qed

lemma sint_ucast_32_64: "sint (ucast (p :: uint32) :: go_int) = uint p"
proof -
  have "uint p < 9223372036854775808" using uint_uint32_lt [of p] by linarith
  then show ?thesis by (simp add: sint_go_int uint_ucast_32_64)
qed

lemma readIntensities_short:
  assumes "length s < 16"
  shows "readIntensities s =
     Return (Inl (if length s < 4 \<or> length s mod 4 = 0 then io_EOF else io_ErrUnexpectedEOF))"
proof (cases "length s < 4")
  case True
  then show ?thesis by (simp add: readIntensities_def bufio_Discard_def)
next
  case False
  then have m: "(length s - 4) mod 4 = length s mod 4"
    by (simp add: le_mod_geq)
  have "\<not> 12 \<le> length s - 4" using assms by simp
  then show ?thesis using False
    by (simp add: readIntensities_def bufio_Discard_def read_params_eq m)
qed

lemma readIntensities_header:
  assumes "16 \<le> length s"
  shows "readIntensities s =
     (case read_images (unat (BigEndian_Uint32 (s ! 4) (s ! 5) (s ! 6) (s ! 7)))
             (ucast (BigEndian_Uint32 (s ! 8) (s ! 9) (s ! 10) (s ! 11)))
             (ucast (BigEndian_Uint32 (s ! 12) (s ! 13) (s ! 14) (s ! 15)))
             (drop 16 s) of
        Panic p \<Rightarrow> Panic p
      | Return (Inl err) \<Rightarrow> Return (Inl err)
      | Return (Inr results) \<Rightarrow>
          Return (Inr (results,
             ucast (BigEndian_Uint32 (s ! 8) (s ! 9) (s ! 10) (s ! 11)),
             ucast (BigEndian_Uint32 (s ! 12) (s ! 13) (s ! 14) (s ! 15)))))"
proof -
  have d: "bufio_Discard s 4 = Inr (drop 4 s)" using assms by (simp add: bufio_Discard_def)
  have p: "read_params 3 (drop 4 s) =
     Inr ([BigEndian_Uint32 (s ! 4) (s ! 5) (s ! 6) (s ! 7),
           BigEndian_Uint32 (s ! 8) (s ! 9) (s ! 10) (s ! 11),
           BigEndian_Uint32 (s ! 12) (s ! 13) (s ! 14) (s ! 15)], drop 16 s)"
    using assms by (simp add: read_params_eq upt_rec [of 0] upt_rec [of 1] upt_rec [of 2] numeral_3_eq_3)
  have mk: "make_slice (ucast c :: go_int) ([] :: uint8 list) = Return (replicate (unat c) [])" for c :: uint32
    by (simp add: make_slice_def sint_ucast_32_64)
  show ?thesis
    by (simp add: readIntensities_def d p mk Let_def numeral_2_eq_2 split: outcome.split sum.split)
qed

lemma ucast_BigEndian_Uint32:
  "(ucast (BigEndian_Uint32 (s ! i) (s ! (i + 1)) (s ! (i + 2)) (s ! (i + 3))) :: go_int)
     = word_of_nat (uint32_be_at s i)"
  by (simp flip: unat_BigEndian_Uint32)

lemma read_images_zero_area:
  assumes "width * height = 0"
  shows "read_images k width height r = Return (Inr (replicate k []))"
proof -
  have "map (\<lambda>j. [] :: uint8 list) [0..<k] = replicate k []"
    by (induction k) (simp_all add: replicate_append_same)
  then show ?thesis
    using read_images_nonneg [of width height k r] by (simp add: assms)
qed

text \<open>
  Three general facts about a stream whose header parses. When the product
  \<open>width * height\<close> fits Go's \<open>int\<close>, the decoder succeeds if the stream holds
  all the blocks the header announces, and returns the error of a short block if it
  does not. When the product does not fit, it wraps around to a negative \<open>int\<close>;
  the limited reader then copies nothing, the test \<open>n < int64(width*height)\<close> is
  false, and \<open>make\<close> panics.
\<close>

lemma readIntensities_complete:
  assumes "16 \<le> length s"
      and "int (uint32_be_at s 8 * uint32_be_at s 12) < 9223372036854775808"
      and "16 + uint32_be_at s 4 * (uint32_be_at s 8 * uint32_be_at s 12) \<le> length s"
  shows "readIntensities s =
     Return (Inr (map (\<lambda>j. take (uint32_be_at s 8 * uint32_be_at s 12)
                              (drop (16 + j * (uint32_be_at s 8 * uint32_be_at s 12)) s))
                      [0..<uint32_be_at s 4],
                  word_of_nat (uint32_be_at s 8), word_of_nat (uint32_be_at s 12)))"
proof -
  define W where "W = BigEndian_Uint32 (s ! 8) (s ! 9) (s ! 10) (s ! 11)"
  define H where "H = BigEndian_Uint32 (s ! 12) (s ! 13) (s ! 14) (s ! 15)"
  have W: "unat W = uint32_be_at s 8" and H: "unat H = uint32_be_at s 12"
    using unat_BigEndian_Uint32 [of s 8] unat_BigEndian_Uint32 [of s 12]
    by (simp_all add: W_def H_def)
  have sp: "sint (ucast W * ucast H :: go_int) = int (uint32_be_at s 8 * uint32_be_at s 12)"
    using assms(2) unfolding sint_product W H by (simp only: if_True)
  then have nonneg: "0 \<le> sint (ucast W * ucast H :: go_int)" by simp
  have n: "nat (sint (ucast W * ucast H :: go_int)) = uint32_be_at s 8 * uint32_be_at s 12"
    by (simp only: sp nat_int)
  have "read_images (uint32_be_at s 4) (ucast W) (ucast H) (drop 16 s)
      = Return (Inr (map (\<lambda>j. take (uint32_be_at s 8 * uint32_be_at s 12)
                              (drop (16 + j * (uint32_be_at s 8 * uint32_be_at s 12)) s))
                      [0..<uint32_be_at s 4]))"
    unfolding read_images_nonneg [OF nonneg] n using assms(1,3) by (simp add: add.commute)
  then show ?thesis
    using unat_BigEndian_Uint32 [of s 4] ucast_BigEndian_Uint32 [of s 8] ucast_BigEndian_Uint32 [of s 12]
    unfolding readIntensities_header [OF assms(1)]
    by (simp add: W_def H_def)
qed

lemma readIntensities_truncated:
  assumes "16 \<le> length s"
      and "int (uint32_be_at s 8 * uint32_be_at s 12) < 9223372036854775808"
      and "length s < 16 + uint32_be_at s 4 * (uint32_be_at s 8 * uint32_be_at s 12)"
  shows "readIntensities s = Return (Inl (errors_New ''not enough data for image''))"
proof -
  define W where "W = BigEndian_Uint32 (s ! 8) (s ! 9) (s ! 10) (s ! 11)"
  define H where "H = BigEndian_Uint32 (s ! 12) (s ! 13) (s ! 14) (s ! 15)"
  have W: "unat W = uint32_be_at s 8" and H: "unat H = uint32_be_at s 12"
    using unat_BigEndian_Uint32 [of s 8] unat_BigEndian_Uint32 [of s 12]
    by (simp_all add: W_def H_def)
  have sp: "sint (ucast W * ucast H :: go_int) = int (uint32_be_at s 8 * uint32_be_at s 12)"
    using assms(2) unfolding sint_product W H by (simp only: if_True)
  then have nonneg: "0 \<le> sint (ucast W * ucast H :: go_int)" by simp
  have n: "nat (sint (ucast W * ucast H :: go_int)) = uint32_be_at s 8 * uint32_be_at s 12"
    by (simp only: sp nat_int)
  have "read_images (uint32_be_at s 4) (ucast W) (ucast H) (drop 16 s)
      = Return (Inl (errors_New ''not enough data for image''))"
    unfolding read_images_nonneg [OF nonneg] n using assms(1,3) by simp
  then show ?thesis
    using unat_BigEndian_Uint32 [of s 4]
    unfolding readIntensities_header [OF assms(1)]
    by (simp add: W_def H_def)
qed

lemma readIntensities_overflow:
  assumes "16 \<le> length s"
      and "0 < uint32_be_at s 4"
      and "\<not> int (uint32_be_at s 8 * uint32_be_at s 12) < 9223372036854775808"
  shows "readIntensities s = Panic MakesliceLenOutOfRange"
proof -
  define W where "W = BigEndian_Uint32 (s ! 8) (s ! 9) (s ! 10) (s ! 11)"
  define H where "H = BigEndian_Uint32 (s ! 12) (s ! 13) (s ! 14) (s ! 15)"
  have W: "unat W = uint32_be_at s 8" and H: "unat H = uint32_be_at s 12"
    using unat_BigEndian_Uint32 [of s 8] unat_BigEndian_Uint32 [of s 12]
    by (simp_all add: W_def H_def)
  have "\<not> int (unat W * unat H) < 9223372036854775808"
    using assms(3) unfolding W H .
  then have neg: "sint (ucast W * ucast H :: go_int) < 0"
    by (rule sint_product_negative)
  obtain k where k: "uint32_be_at s 4 = Suc k" using assms(2) by (cases "uint32_be_at s 4") auto
  show ?thesis
    using unat_BigEndian_Uint32 [of s 4] read_images_negative [OF neg, of k "drop 16 s"]
    unfolding readIntensities_header [OF assms(1)]
    by (simp add: W_def H_def k)
qed

text \<open>The shape of a successful result of the image decoder.\<close>

lemma readIntensities_shape:
  assumes ok: "readIntensities s = Return (Inr (results, width, height))"
  shows "16 \<le> length s \<and>
         sint width = int (uint32_be_at s 8) \<and>
         sint height = int (uint32_be_at s 12) \<and>
         length results = uint32_be_at s 4 \<and>
         (\<forall>j<uint32_be_at s 4.
            results ! j =
              take (uint32_be_at s 8 * uint32_be_at s 12)
                (drop (16 + j * (uint32_be_at s 8 * uint32_be_at s 12)) s) \<and>
            length (results ! j) = uint32_be_at s 8 * uint32_be_at s 12)"
proof -
  define count where "count = uint32_be_at s 4"
  define w where "w = uint32_be_at s 8"
  define h where "h = uint32_be_at s 12"
  define C where "C = BigEndian_Uint32 (s ! 4) (s ! 5) (s ! 6) (s ! 7)"
  define W where "W = BigEndian_Uint32 (s ! 8) (s ! 9) (s ! 10) (s ! 11)"
  define H where "H = BigEndian_Uint32 (s ! 12) (s ! 13) (s ! 14) (s ! 15)"
  have C: "unat C = count" and W: "unat W = w" and H: "unat H = h"
    using unat_BigEndian_Uint32 [of s 4] unat_BigEndian_Uint32 [of s 8] unat_BigEndian_Uint32 [of s 12]
    by (simp_all add: C_def W_def H_def count_def w_def h_def)
  have len: "16 \<le> length s"
  proof (rule ccontr)
    assume "\<not> 16 \<le> length s"
    then have "length s < 16" by simp
    from readIntensities_short [OF this] ok show False by simp
  qed
  from readIntensities_header [OF len] ok
  have ri: "read_images count (ucast W) (ucast H) (drop 16 s) = Return (Inr results)"
    and wd: "width = ucast W" and ht: "height = ucast H"
    by (auto simp: C_def [symmetric] W_def [symmetric] H_def [symmetric] C
          split: outcome.splits sum.splits)
  have sw: "sint width = int w" and sh: "sint height = int h"
    by (simp_all add: wd ht sint_ucast_32_64 flip: W H)
  have body: "length results = count \<and>
         (\<forall>j<count. results ! j = take (w * h) (drop (16 + j * (w * h)) s) \<and>
                     length (results ! j) = w * h)"
  proof (cases count)
    case 0
    with ri show ?thesis by simp
  next
    case (Suc k)
    have nonneg: "0 \<le> sint (ucast W * ucast H :: go_int)"
    proof (rule ccontr)
      assume "\<not> 0 \<le> sint (ucast W * ucast H :: go_int)"
      then have "sint (ucast W * ucast H :: go_int) < 0" by simp
      from read_images_negative [OF this] ri Suc show False by simp
    qed
    then have small: "int (unat W * unat H) < 9223372036854775808"
      using sint_product_negative [of W H] by fastforce
    then have "sint (ucast W * ucast H :: go_int) = int (unat W * unat H)"
      unfolding sint_product by (simp only: if_True)
    then have n: "nat (sint (ucast W * ucast H :: go_int)) = w * h"
      by (simp only: nat_int W H)
    from ri have fit: "count * (w * h) \<le> length (drop 16 s)"
      and res: "results = map (\<lambda>j. take (w * h) (drop (j * (w * h)) (drop 16 s))) [0..<count]"
      unfolding read_images_nonneg [OF nonneg] n by (simp_all split: if_splits)
    have "length (results ! j) = w * h" if "j < count" for j
    proof -
      from that have "Suc j * (w * h) \<le> count * (w * h)" by (intro mult_le_mono1) simp
      with fit have "j * (w * h) + w * h \<le> length (drop 16 s)" by simp
      then show ?thesis using that by (simp add: res)
    qed
    moreover have "results ! j = take (w * h) (drop (16 + j * (w * h)) s)" if "j < count" for j
      using that by (simp add: res add.commute)
    moreover have "length results = count" by (simp add: res)
    ultimately show ?thesis by blast
  qed
  from len sw sh body show ?thesis unfolding count_def w_def h_def by blast
qed

subsection \<open>The loop of the label decoder, and the label vectors\<close>

lemma read_label_bytes_eq:
  "read_label_bytes k r =
     (if k \<le> length r then Inr (map ucast (take k r)) else Inl io_EOF)"
proof (induction k arbitrary: r)
  case 0
  then show ?case by simp
next
  case (Suc k)
  show ?case
  proof (cases r)
    case Nil
    then show ?thesis by simp
  next
    case (Cons b r')
    then show ?thesis by (simp add: Suc.IH)
  qed
qed

lemma sint_label: "sint (ucast (b :: uint8) :: go_int) = uint b"
proof -
  have "uint b < 9223372036854775808" using uint_byte_lt [of b] by linarith
  then show ?thesis by (simp add: sint_go_int uint_ucast_8_64)
qed

lemma readLabels_eq:
  assumes "0 \<le> sint count"
  shows "readLabels s count =
     (if length s < 8 + nat (sint count) then Return (Inl io_EOF)
      else Return (Inr (map ucast (take (nat (sint count)) (drop 8 s)))))"
proof -
  have mk: "make_slice count (0 :: go_int) = Return (replicate (nat (sint count)) 0)"
    using assms by (simp add: make_slice_def)
  show ?thesis
    by (auto simp add: readLabels_def bufio_Discard_def mk read_label_bytes_eq)
qed

lemma label_vectors_in_range:
  assumes "\<forall>s\<in>set samples. 0 \<le> sint (Label s) \<and> sint (Label s) \<le> 9"
  shows "label_vectors samples =
     Return (map (\<lambda>s. (replicate 10 0)[nat (sint (Label s)) := 1]) samples)"
  using assms by (induction samples) simp_all

lemma label_vectors_out_of_range:
  assumes "\<exists>s\<in>set samples. \<not> (0 \<le> sint (Label s) \<and> sint (Label s) \<le> 9)"
  shows "\<exists>s\<in>set samples. \<not> (0 \<le> sint (Label s) \<and> sint (Label s) \<le> 9) \<and>
           label_vectors samples = Panic (IndexOutOfRange (sint (Label s)) 10)"
  using assms
proof (induction samples)
  case Nil
  then show ?case by simp
next
  case (Cons a samples)
  show ?case
  proof (cases "0 \<le> sint (Label a) \<and> sint (Label a) \<le> 9")
    case True
    with Cons.prems have "\<exists>s\<in>set samples. \<not> (0 \<le> sint (Label s) \<and> sint (Label s) \<le> 9)"
      by auto
    from Cons.IH [OF this] True show ?thesis by auto
  next
    case False
    then show ?thesis by auto
  qed
qed

subsection \<open>Rounding to float64\<close>

text \<open>
  Rounding never leaves the interval \<open>[0, 1]\<close>, whose ends are floating-point
  numbers, and moves a number of that interval by at most \<open>2 ^ - 53\<close>. The last
  lemma checks \<open>exponent_of\<close>: it is the binary exponent of its argument.
\<close>

lemma round_half_even_le:
  assumes "x \<le> of_int k"
  shows "round_half_even x \<le> k"
proof -
  have f: "\<lfloor>x\<rfloor> \<le> k" using assms by (simp add: floor_le_iff)
  show ?thesis
  proof (cases "\<lfloor>x\<rfloor> = k")
    case True
    then have "x - of_int \<lfloor>x\<rfloor> \<le> 0" using assms by simp
    then have "x - of_int \<lfloor>x\<rfloor> < 1 / 2" by linarith
    then show ?thesis using True by (simp add: round_half_even_def Let_def)
  next
    case False
    with f have "\<lfloor>x\<rfloor> + 1 \<le> k" by simp
    then show ?thesis using f by (simp add: round_half_even_def Let_def)
  qed
qed

lemma round_half_even_nonneg:
  assumes "0 \<le> x"
  shows "0 \<le> round_half_even x"
proof -
  have "0 \<le> \<lfloor>x\<rfloor>" using assms by simp
  then show ?thesis by (simp add: round_half_even_def Let_def)
qed

lemma pow2_pos: "0 < pow2 e"
  by (simp add: pow2_def)

lemma pow2_neg_inverse: "e \<le> 0 \<Longrightarrow> pow2 e * 2 ^ nat (- e) = 1"
  by (cases "e = 0") (simp_all add: pow2_def)

lemma exponent_of_le_0:
  assumes "0 < q" "q \<le> 1"
  shows "exponent_of q \<le> 0"
proof -
  obtain n d where nd: "quotient_of q = (n, d)" by (cases "quotient_of q")
  then have d: "0 < d" by (rule quotient_of_denom_pos)
  have q: "q = of_int n / of_int d" using nd by (rule quotient_of_div)
  from assms d have n: "0 < n" "n \<le> d"
    by (simp_all add: q zero_less_divide_iff pos_divide_le_eq)
  then have "nat n \<le> nat d" by simp
  then have "floorlog 2 (nat n) \<le> floorlog 2 (nat d)" by (rule floorlog_mono)
  then show ?thesis by (simp add: exponent_of_def nd Let_def)
qed

lemma round_float64_unit_interval:
  assumes "0 \<le> q" "q \<le> 1"
  shows "0 \<le> round_float64 q \<and> round_float64 q \<le> 1"
proof (cases "q = 0")
  case True
  then show ?thesis by (simp add: round_float64_def)
next
  case False
  with assms have pos: "0 < q" by simp
  define u where "u = pow2 (exponent_of \<bar>q\<bar> - 52)"
  define K where "K = (2 :: int) ^ nat (- (exponent_of \<bar>q\<bar> - 52))"
  have e: "exponent_of \<bar>q\<bar> - 52 \<le> 0" using exponent_of_le_0 [of q] pos assms by simp
  have u: "0 < u" by (simp add: u_def pow2_pos)
  have uK: "u * of_int K = 1" using pow2_neg_inverse [OF e] by (simp add: u_def K_def)
  have r: "round_float64 q = of_int (round_half_even (q / u)) * u"
    using pos by (simp add: round_float64_def u_def Let_def)
  have "q / u \<le> 1 / u" using assms u by (simp add: divide_right_mono)
  also have "1 / u = of_int K" using uK u by (simp add: field_simps)
  finally have "round_half_even (q / u) \<le> K" by (rule round_half_even_le)
  then have "(of_int (round_half_even (q / u)) :: rat) \<le> of_int K" by simp
  then have "of_int (round_half_even (q / u)) * u \<le> of_int K * u"
    using u by (intro mult_right_mono) simp_all
  then have hi: "round_float64 q \<le> 1" using uK by (simp add: r mult.commute)
  have "0 \<le> q / u" using pos u by simp
  then have "0 \<le> round_half_even (q / u)" by (rule round_half_even_nonneg)
  then have lo: "0 \<le> round_float64 q" using u by (simp add: r)
  from lo hi show ?thesis ..
qed

lemma normalised_unit_interval:
  "0 \<le> float64_div (float64_of_uint8 b) 255 \<and> float64_div (float64_of_uint8 b) 255 \<le> 1"
proof -
  have "uint b < 256" by (rule uint_byte_lt)
  moreover have "unat b = nat (uint b)" by (rule unat_eq_nat_uint)
  ultimately have "unat b \<le> 255" by linarith
  then have "(of_nat (unat b) :: rat) \<le> of_nat 255" by (simp only: of_nat_le_iff)
  moreover have "0 \<le> (of_nat (unat b) :: rat)" by (rule of_nat_0_le_iff)
  ultimately have "0 \<le> (of_nat (unat b) :: rat) / 255" "(of_nat (unat b) :: rat) / 255 \<le> 1" by simp_all
  then show ?thesis
    unfolding float64_div_def float64_of_uint8_def by (rule round_float64_unit_interval)
qed

lemma round_half_even_error: "\<bar>of_int (round_half_even x) - x\<bar> \<le> 1 / 2"
proof -
  have "of_int \<lfloor>x\<rfloor> \<le> x" "x < of_int \<lfloor>x\<rfloor> + 1" by linarith+
  then show ?thesis by (auto simp add: round_half_even_def Let_def abs_le_iff)
qed

lemma pow2_small:
  assumes "e \<le> 0"
  shows "pow2 (e - 52) \<le> 1 / 2 ^ 52"
proof -
  have "nat (- (e - 52)) = 52 + nat (- e)" using assms by simp
  then have p: "pow2 (e - 52) = 1 / (2 ^ 52 * 2 ^ nat (- e))"
    using assms by (simp add: pow2_def power_add)
  have "(1 :: rat) \<le> 2 ^ nat (- e)" by simp
  then have "(2 :: rat) ^ 52 * 1 \<le> 2 ^ 52 * 2 ^ nat (- e)"
    by (intro mult_left_mono) simp_all
  then have "1 / (2 ^ 52 * 2 ^ nat (- e)) \<le> 1 / (2 :: rat) ^ 52"
    by (intro divide_left_mono) simp_all
  then show ?thesis unfolding p .
qed

lemma round_float64_error:
  assumes "0 \<le> q" "q \<le> 1"
  shows "\<bar>round_float64 q - q\<bar> \<le> 1 / 2 ^ 53"
proof (cases "q = 0")
  case True
  then show ?thesis by (simp add: round_float64_def)
next
  case False
  with assms have pos: "0 < q" by simp
  define u where "u = pow2 (exponent_of \<bar>q\<bar> - 52)"
  have e: "exponent_of \<bar>q\<bar> \<le> 0" using exponent_of_le_0 [of q] pos assms by simp
  have u: "0 < u" by (simp add: u_def pow2_pos)
  have us: "u \<le> 1 / 2 ^ 52" unfolding u_def by (rule pow2_small [OF e])
  have r: "round_float64 q = of_int (round_half_even (q / u)) * u"
    using pos by (simp add: round_float64_def u_def Let_def)
  have "round_float64 q - q = (of_int (round_half_even (q / u)) - q / u) * u"
    using u by (simp add: r field_simps)
  then have "\<bar>round_float64 q - q\<bar> = \<bar>of_int (round_half_even (q / u)) - q / u\<bar> * u"
    using u by (simp add: abs_mult)
  also have "\<dots> \<le> (1 / 2) * u"
    using u by (intro mult_right_mono round_half_even_error) simp
  also have "\<dots> \<le> (1 / 2) * (1 / 2 ^ 52)"
    using us by (intro mult_left_mono) simp_all
  finally show ?thesis by simp
qed

lemma normalised_error:
  "\<bar>float64_div (float64_of_uint8 b) 255 - of_nat (unat b) / 255\<bar> \<le> 1 / 2 ^ 53"
proof -
  have "uint b < 256" by (rule uint_byte_lt)
  moreover have "unat b = nat (uint b)" by (rule unat_eq_nat_uint)
  ultimately have "unat b \<le> 255" by linarith
  then have "(of_nat (unat b) :: rat) \<le> of_nat 255" by (simp only: of_nat_le_iff)
  moreover have "0 \<le> (of_nat (unat b) :: rat)" by (rule of_nat_0_le_iff)
  ultimately have "0 \<le> (of_nat (unat b) :: rat) / 255" "(of_nat (unat b) :: rat) / 255 \<le> 1" by simp_all
  then show ?thesis
    unfolding float64_div_def float64_of_uint8_def by (rule round_float64_error)
qed

lemma pow2_power_int: "pow2 e = power_int 2 e"
  by (simp add: pow2_def power_int_def power_one_over [symmetric] inverse_eq_divide)

lemma pow2_nat_diff: "pow2 (int a - int b) = 2 ^ a / 2 ^ b"
  unfolding pow2_power_int by (simp add: power_int_diff)

lemma exponent_of_bounds:
  assumes "0 < q"
  shows "pow2 (exponent_of q) \<le> q \<and> q < pow2 (exponent_of q + 1)"
proof -
  obtain n d where nd: "quotient_of q = (n, d)" by (cases "quotient_of q")
  then have d: "0 < d" by (rule quotient_of_denom_pos)
  have q: "q = of_int n / of_int d" using nd by (rule quotient_of_div)
  from assms d have n: "0 < n" by (simp add: q zero_less_divide_iff)
  define a where "a = floorlog 2 (nat n)"
  define b where "b = floorlog 2 (nat d)"
  have a: "2 ^ (a - 1) \<le> nat n" "nat n < 2 ^ a"
    using floorlog_bounds [of "nat n" 2] n by (simp_all add: a_def)
  have b: "2 ^ (b - 1) \<le> nat d" "nat d < 2 ^ b"
    using floorlog_bounds [of "nat d" 2] d by (simp_all add: b_def)
  have a1: "a \<noteq> 0" using n by (simp add: a_def floorlog_eq_zero_iff)
  have b1: "b \<noteq> 0" using d by (simp add: b_def floorlog_eq_zero_iff)
  have ra: "(2 :: rat) ^ (a - 1) \<le> of_int n" "(of_int n :: rat) < 2 ^ a"
  proof -
    have "int (2 ^ (a - 1)) \<le> n" "n < int (2 ^ a)" using a n by linarith+
    then have "(of_int (int (2 ^ (a - 1))) :: rat) \<le> of_int n" "(of_int n :: rat) < of_int (int (2 ^ a))"
      by (simp_all only: of_int_le_iff of_int_less_iff)
    then show "(2 :: rat) ^ (a - 1) \<le> of_int n" "(of_int n :: rat) < 2 ^ a" by simp_all
  qed
  have rb: "(2 :: rat) ^ (b - 1) \<le> of_int d" "(of_int d :: rat) < 2 ^ b"
  proof -
    have "int (2 ^ (b - 1)) \<le> d" "d < int (2 ^ b)" using b d by linarith+
    then have "(of_int (int (2 ^ (b - 1))) :: rat) \<le> of_int d" "(of_int d :: rat) < of_int (int (2 ^ b))"
      by (simp_all only: of_int_le_iff of_int_less_iff)
    then show "(2 :: rat) ^ (b - 1) \<le> of_int d" "(of_int d :: rat) < 2 ^ b" by simp_all
  qed
  have dpos: "(0 :: rat) < of_int d" using d by simp
  define k where "k = int a - int b"
  have upper: "q < pow2 (k + 1)"
  proof -
    have "k + 1 = int a - int (b - 1)" using b1 by (simp add: k_def)
    then have p: "pow2 (k + 1) = 2 ^ a / 2 ^ (b - 1)" by (simp only: pow2_nat_diff)
    have "q < 2 ^ a / of_int d" unfolding q using ra(2) dpos by (simp add: divide_strict_right_mono)
    also have "\<dots> \<le> 2 ^ a / 2 ^ (b - 1)"
      using rb(1) dpos by (intro divide_left_mono mult_pos_pos) simp_all
    finally show ?thesis unfolding p .
  qed
  have lower: "pow2 (k - 1) \<le> q"
  proof -
    have "k - 1 = int (a - 1) - int b" using a1 by (simp add: k_def)
    then have p: "pow2 (k - 1) = 2 ^ (a - 1) / 2 ^ b" by (simp only: pow2_nat_diff)
    have "(2 :: rat) ^ (a - 1) / 2 ^ b \<le> 2 ^ (a - 1) / of_int d"
      using rb(2) dpos by (intro divide_left_mono mult_pos_pos) simp_all
    also have "\<dots> \<le> q" unfolding q using ra(1) dpos by (simp add: divide_right_mono)
    finally show ?thesis unfolding p .
  qed
  have e: "exponent_of q = (if pow2 k \<le> q then k else k - 1)"
    by (simp add: exponent_of_def nd Let_def k_def a_def b_def)
  show ?thesis
  proof (cases "pow2 k \<le> q")
    case True
    with upper show ?thesis by (simp add: e)
  next
    case False
    with lower show ?thesis by (simp add: e)
  qed
qed

subsection \<open>The assembly of the data set\<close>

lemma make_samples_eq:
  "i + length images \<le> length labels \<Longrightarrow>
   make_samples i images labels =
     Return (map (\<lambda>(img, l). \<lparr>Intensities = map (\<lambda>x. float64_div (float64_of_uint8 x) 255) img,
                              Label = l\<rparr>)
               (zip images (drop i labels)))"
proof (induction images arbitrary: i)
  case Nil
  then show ?case by simp
next
  case (Cons img images)
  then have i: "i < length labels" and le: "Suc i + length images \<le> length labels" by simp_all
  have "drop i labels = labels ! i # drop (Suc i) labels"
    using i by (simp add: Cons_nth_drop_Suc)
  then show ?case using i Cons.IH [OF le] by (simp add: Let_def)
qed

lemma uint32_be_at_less: "uint32_be_at s i < 4294967296"
proof -
  have "uint (BigEndian_Uint32 (s ! i) (s ! (i + 1)) (s ! (i + 2)) (s ! (i + 3))) < 4294967296"
    by (rule uint_uint32_lt)
  moreover have "unat (BigEndian_Uint32 (s ! i) (s ! (i + 1)) (s ! (i + 2)) (s ! (i + 3)))
      = nat (uint (BigEndian_Uint32 (s ! i) (s ! (i + 1)) (s ! (i + 2)) (s ! (i + 3))))"
    by (rule unat_eq_nat_uint)
  ultimately show ?thesis unfolding unat_BigEndian_Uint32 by linarith
qed

lemma sint_word_of_nat:
  assumes "n < 4294967296"
  shows "sint (word_of_nat n :: go_int) = int n"
proof -
  have "int n mod 18446744073709551616 = int n"
    using assms by (intro mod_pos_pos_trivial) linarith+
  then have u: "uint (word_of_nat n :: go_int) = int n"
    by (simp add: unsigned_of_nat take_bit_eq_mod)
  have "int n < 9223372036854775808" using assms by linarith
  then show ?thesis unfolding sint_go_int u by (simp only: if_True)
qed

lemma loadDataSet_Return:
  assumes "loadDataSet gz files prefix out = (out', Return d)"
  shows "\<exists>imageReader labelReader out1 blocks labels.
     assetReader gz files (prefix @ ''-images-idx3-ubyte.gz'') out = (out1, Return imageReader) \<and>
     readIntensities imageReader = Return (Inr (blocks, Width d, Height d)) \<and>
     assetReader gz files (prefix @ ''-labels-idx1-ubyte.gz'') out1 = (out', Return labelReader) \<and>
     readLabels labelReader (word_of_nat (length blocks)) = Return (Inr labels) \<and>
     make_samples 0 blocks labels = Return (Samples d)"
  using assms
  by (auto simp add: loadDataSet_def Let_def split: prod.splits outcome.splits sum.splits)

lemma loadDataSet_assembled:
  assumes "loadDataSet gz files prefix out = (out', Return d)"
  shows "\<exists>imageReader labelReader out1 blocks labels.
     assetReader gz files (prefix @ ''-images-idx3-ubyte.gz'') out = (out1, Return imageReader) \<and>
     readIntensities imageReader = Return (Inr (blocks, Width d, Height d)) \<and>
     assetReader gz files (prefix @ ''-labels-idx1-ubyte.gz'') out1 = (out', Return labelReader) \<and>
     readLabels labelReader (word_of_nat (length blocks)) = Return (Inr labels) \<and>
     length labels = length blocks \<and>
     Samples d = map (\<lambda>(img, l). \<lparr>Intensities = map (\<lambda>x. float64_div (float64_of_uint8 x) 255) img,
                                     Label = l\<rparr>) (zip blocks labels)"
proof -
  from loadDataSet_Return [OF assms] obtain imageReader labelReader out1 blocks labels where
    ar: "assetReader gz files (prefix @ ''-images-idx3-ubyte.gz'') out = (out1, Return imageReader)"
    and ri: "readIntensities imageReader = Return (Inr (blocks, Width d, Height d))"
    and al: "assetReader gz files (prefix @ ''-labels-idx1-ubyte.gz'') out1 = (out', Return labelReader)"
    and rl: "readLabels labelReader (word_of_nat (length blocks)) = Return (Inr labels)"
    and ms: "make_samples 0 blocks labels = Return (Samples d)"
    by blast
  from readIntensities_shape [OF ri] have "length blocks = uint32_be_at imageReader 4" by blast
  then have "length blocks < 4294967296" by (simp add: uint32_be_at_less)
  then have sc: "sint (word_of_nat (length blocks) :: go_int) = int (length blocks)"
    by (rule sint_word_of_nat)
  then have nn: "0 \<le> sint (word_of_nat (length blocks) :: go_int)" by simp
  have ll: "length labels = length blocks"
    using rl unfolding readLabels_eq [OF nn] sc by (auto split: if_splits)
  then have "make_samples 0 blocks labels =
     Return (map (\<lambda>(img, l). \<lparr>Intensities = map (\<lambda>x. float64_div (float64_of_uint8 x) 255) img,
                              Label = l\<rparr>) (zip blocks (drop 0 labels)))"
    by (intro make_samples_eq) simp
  with ms have "Samples d = map (\<lambda>(img, l). \<lparr>Intensities = map (\<lambda>x. float64_div (float64_of_uint8 x) 255) img,
                                     Label = l\<rparr>) (zip blocks labels)"
    by simp
  with ar ri al rl ll show ?thesis by blast
qed

subsection \<open>The image decoder\<close>

text \<open>
  C1. Whenever \<open>readIntensities\<close> succeeds on a stream \<open>s\<close>, the stream has at
  least the 16 header bytes; the first four are skipped; \<open>count\<close>, \<open>width\<close> and
  \<open>height\<close> are the big-endian 32-bit unsigned integers at the offsets 4, 8 and 12;
  the result has exactly \<open>count\<close> byte vectors, the \<open>j\<close>-th being the \<open>j\<close>-th
  block of \<open>width * height\<close> bytes after the header, of that length; and the
  returned dimensions are \<open>width\<close> and \<open>height\<close>.
\<close>

theorem readIntensities_decodes:
  assumes ok: "readIntensities s = Return (Inr (results, width, height))"
  shows "16 \<le> length s \<and>
         sint width = int (uint32_be_at s 8) \<and>
         sint height = int (uint32_be_at s 12) \<and>
         length results = uint32_be_at s 4 \<and>
         (\<forall>j<uint32_be_at s 4.
            results ! j =
              take (uint32_be_at s 8 * uint32_be_at s 12)
                (drop (16 + j * (uint32_be_at s 8 * uint32_be_at s 12)) s) \<and>
            length (results ! j) = uint32_be_at s 8 * uint32_be_at s 12)"
  using ok by (rule readIntensities_shape)

theorem readIntensities_decodes_witness:
  "readIntensities [0, 0, 8, 3, 0, 0, 0, 2, 0, 0, 0, 2, 0, 0, 0, 2, 0, 255, 128, 64, 255, 0, 0, 255]
     = Return (Inr ([[0, 255, 128, 64], [255, 0, 0, 255]], 2, 2)) \<and>
   length [[0, 255, 128, 64], [255, 0, 0, 255 :: uint8]]
     = uint32_be_at [0, 0, 8, 3, 0, 0, 0, 2, 0, 0, 0, 2, 0, 0, 0, 2, 0, 255, 128, 64, 255, 0, 0, 255] 4"
proof -
  have run: "readIntensities [0, 0, 8, 3, 0, 0, 0, 2, 0, 0, 0, 2, 0, 0, 0, 2, 0, 255, 128, 64, 255, 0, 0, 255]
     = Return (Inr ([[0, 255, 128, 64], [255, 0, 0, 255]], 2, 2))"
    by code_simp
  from readIntensities_decodes [OF run] run show ?thesis by blast
qed

text \<open>
  C3, as the code has it. A header with a zero width or a zero height does not make
  the decoder fail: the product \<open>width * height\<close> is zero, every copy of zero bytes
  is complete, and the decoder returns \<open>count\<close> empty byte vectors with the parsed
  width and height, whatever follows the header.
\<close>

theorem readIntensities_zero_dimension:
  assumes "16 \<le> length s"
      and "uint32_be_at s 8 = 0 \<or> uint32_be_at s 12 = 0"
  shows "readIntensities s =
     Return (Inr (replicate (uint32_be_at s 4) [],
                  word_of_nat (uint32_be_at s 8), word_of_nat (uint32_be_at s 12)))"
proof -
  have "(word_of_nat (uint32_be_at s 8) :: go_int) * word_of_nat (uint32_be_at s 12) = 0"
    using assms(2) by auto
  then show ?thesis
    using unat_BigEndian_Uint32 [of s 4] ucast_BigEndian_Uint32 [of s 8] ucast_BigEndian_Uint32 [of s 12]
    unfolding readIntensities_header [OF assms(1)]
    by (simp add: read_images_zero_area)
qed

theorem readIntensities_zero_dimension_witness:
  "16 \<le> length [0, 0, 8, 3, 0, 0, 0, 2, 0, 0, 0, 0, 0, 0, 0, 28 :: uint8] \<and>
   uint32_be_at [0, 0, 8, 3, 0, 0, 0, 2, 0, 0, 0, 0, 0, 0, 0, 28] 8 = 0 \<and>
   readIntensities [0, 0, 8, 3, 0, 0, 0, 2, 0, 0, 0, 0, 0, 0, 0, 28] =
     Return (Inr (replicate (uint32_be_at [0, 0, 8, 3, 0, 0, 0, 2, 0, 0, 0, 0, 0, 0, 0, 28] 4) [],
                  word_of_nat (uint32_be_at [0, 0, 8, 3, 0, 0, 0, 2, 0, 0, 0, 0, 0, 0, 0, 28] 8),
                  word_of_nat (uint32_be_at [0, 0, 8, 3, 0, 0, 0, 2, 0, 0, 0, 0, 0, 0, 0, 28] 12)))"
proof -
  have len: "16 \<le> length [0, 0, 8, 3, 0, 0, 0, 2, 0, 0, 0, 0, 0, 0, 0, 28 :: uint8]" by simp
  have zero: "uint32_be_at [0, 0, 8, 3, 0, 0, 0, 2, 0, 0, 0, 0, 0, 0, 0, 28] 8 = 0"
    by (simp add: uint32_be_at_def)
  from readIntensities_zero_dimension [OF len disjI1 [OF zero]] len zero show ?thesis by blast
qed

text \<open>
  C3 as stated (a zero dimension makes decoding fail) does not hold: a header with
  \<open>count = 2\<close>, \<open>width = 0\<close>, \<open>height = 28\<close> decodes to two empty images.
\<close>

theorem readIntensities_zero_width_succeeds:
  "readIntensities [0, 0, 8, 3, 0, 0, 0, 2, 0, 0, 0, 0, 0, 0, 0, 28] = Return (Inr ([[], []], 0, 28))"
  by code_simp

text \<open>
  C4. The decoder at a header with \<open>count = 1\<close> and \<open>width = height = 2^32 - 1\<close>
  and no image data: the only block is short, but the decoder does not return the
  error of a short block. The product \<open>width * height\<close> wraps around to
  \<open>- 8589934591\<close>, and \<open>make([]uint8, width*height)\<close> panics.
\<close>

theorem readIntensities_overflow_panics:
  "readIntensities [0, 0, 8, 3, 0, 0, 0, 1, 255, 255, 255, 255, 255, 255, 255, 255]
     = Panic MakesliceLenOutOfRange"
  by code_simp

subsection \<open>The label decoder\<close>

text \<open>
  C5. For a count that is not negative, \<open>readLabels\<close> skips 8 bytes and then reads
  exactly \<open>count\<close> bytes: when the stream has them, it returns \<open>count\<close> labels, the
  \<open>i\<close>-th being the unsigned value of the byte at offset \<open>8 + i\<close>; when the stream
  is shorter, it returns an error (\<open>io.EOF\<close>) and no labels.
\<close>

theorem readLabels_decodes:
  assumes "0 \<le> sint count"
  shows "(length s < 8 + nat (sint count) \<longrightarrow> readLabels s count = Return (Inl io_EOF)) \<and>
         (8 + nat (sint count) \<le> length s \<longrightarrow>
            (\<exists>labels. readLabels s count = Return (Inr labels) \<and>
               length labels = nat (sint count) \<and>
               (\<forall>i<nat (sint count). sint (labels ! i) = uint (s ! (8 + i)))))"
proof -
  define n where "n = nat (sint count)"
  have "sint (map ucast (take n (drop 8 s)) ! i :: go_int) = uint (s ! (8 + i))"
    if "8 + n \<le> length s" "i < n" for i
    using that by (simp add: sint_label)
  then show ?thesis
    unfolding readLabels_eq [OF assms] n_def [symmetric] by auto
qed

theorem readLabels_decodes_witness:
  "0 \<le> sint (2 :: go_int) \<and>
   readLabels [0, 0, 8, 1, 0, 0, 0, 2, 3, 7] 2 = Return (Inr [3, 7]) \<and>
   readLabels [0, 0, 8, 1, 0, 0, 0, 2, 3] 2 = Return (Inl io_EOF)"
proof -
  have c: "0 \<le> sint (2 :: go_int)" by simp
  have n: "nat (sint (2 :: go_int)) = 2" by simp
  have a: "readLabels [0, 0, 8, 1, 0, 0, 0, 2, 3, 7] 2 = Return (Inr [3, 7])"
    by code_simp
  have "length [0, 0, 8, 1, 0, 0, 0, 2, 3 :: uint8] < 8 + nat (sint (2 :: go_int))"
    unfolding n by simp
  with readLabels_decodes [OF c, of "[0, 0, 8, 1, 0, 0, 0, 2, 3]"]
  have "readLabels [0, 0, 8, 1, 0, 0, 0, 2, 3] 2 = Return (Inl io_EOF)" by blast
  with a c show ?thesis by blast
qed

subsection \<open>The ignored prefixes\<close>

text \<open>
  C8. Two image streams that differ only in their first 4 bytes decode to the same
  result, and so do two label streams that differ only in their first 8 bytes: the
  prefix is discarded without a check.
\<close>

theorem decoders_ignore_prefix:
  assumes "length s = length s'" and "drop 4 s = drop 4 s'"
      and "length t = length t'" and "drop 8 t = drop 8 t'"
  shows "readIntensities s = readIntensities s' \<and> readLabels t count = readLabels t' count"
  using assms by (simp add: readIntensities_def readLabels_def bufio_Discard_def)

theorem decoders_ignore_prefix_witness:
  "length [0, 0, 8, 3, 0, 0, 0, 1, 0, 0, 0, 1, 0, 0, 0, 1, 9 :: uint8]
     = length [1, 2, 3, 4, 0, 0, 0, 1, 0, 0, 0, 1, 0, 0, 0, 1, 9 :: uint8] \<and>
   readIntensities [0, 0, 8, 3, 0, 0, 0, 1, 0, 0, 0, 1, 0, 0, 0, 1, 9]
     = readIntensities [1, 2, 3, 4, 0, 0, 0, 1, 0, 0, 0, 1, 0, 0, 0, 1, 9] \<and>
   readLabels [0, 0, 8, 1, 0, 0, 0, 1, 5] 1 = readLabels [9, 8, 7, 6, 5, 4, 3, 2, 5] 1"
proof -
  have 1: "length [0, 0, 8, 3, 0, 0, 0, 1, 0, 0, 0, 1, 0, 0, 0, 1, 9 :: uint8]
     = length [1, 2, 3, 4, 0, 0, 0, 1, 0, 0, 0, 1, 0, 0, 0, 1, 9 :: uint8]" by simp
  have 2: "drop 4 [0, 0, 8, 3, 0, 0, 0, 1, 0, 0, 0, 1, 0, 0, 0, 1, 9 :: uint8]
     = drop 4 [1, 2, 3, 4, 0, 0, 0, 1, 0, 0, 0, 1, 0, 0, 0, 1, 9 :: uint8]" by simp
  have 3: "length [0, 0, 8, 1, 0, 0, 0, 1, 5 :: uint8] = length [9, 8, 7, 6, 5, 4, 3, 2, 5 :: uint8]"
    by simp
  have 4: "drop 8 [0, 0, 8, 1, 0, 0, 0, 1, 5 :: uint8] = drop 8 [9, 8, 7, 6, 5, 4, 3, 2, 5 :: uint8]"
    by simp
  from decoders_ignore_prefix [OF 1 2 3 4, of 1] 1 show ?thesis by blast
qed

subsection \<open>LabelVectors\<close>

text \<open>
  C7. When every label of the data set is in \<open>[0, 9]\<close>, \<open>LabelVectors\<close> returns one
  vector per sample, of length 10, with \<open>1\<close> at the index of the sample's label and
  \<open>0\<close> at the nine other indices.
\<close>

theorem LabelVectors_one_hot:
  assumes "\<forall>s\<in>set (Samples d). 0 \<le> sint (Label s) \<and> sint (Label s) \<le> 9"
  shows "\<exists>res. LabelVectors d = Return res \<and> length res = length (Samples d) \<and>
           (\<forall>i<length (Samples d). length (res ! i) = 10 \<and>
              (\<forall>k<10. res ! i ! k = (if int k = sint (Label (Samples d ! i)) then 1 else 0)))"
proof -
  let ?res = "map (\<lambda>s. (replicate 10 (0 :: float64))[nat (sint (Label s)) := 1]) (Samples d)"
  have r: "LabelVectors d = Return ?res"
    unfolding LabelVectors_def by (rule label_vectors_in_range [OF assms])
  have "?res ! i ! k = (if int k = sint (Label (Samples d ! i)) then 1 else 0)"
    if "i < length (Samples d)" "k < 10" for i k
  proof -
    from that(1) assms have "0 \<le> sint (Label (Samples d ! i))" by simp
    then show ?thesis using that by (auto simp: nth_list_update)
  qed
  then show ?thesis using r by simp
qed

theorem LabelVectors_one_hot_witness:
  "\<exists>res. LabelVectors \<lparr>Samples = [\<lparr>Intensities = [], Label = 3\<rparr>], Width = 0, Height = 0\<rparr>
            = Return res \<and> length res = 1 \<and> res ! 0 ! 3 = 1 \<and> res ! 0 ! 4 = 0"
proof -
  have h: "\<forall>s\<in>set (Samples \<lparr>Samples = [\<lparr>Intensities = [], Label = 3\<rparr>], Width = 0, Height = 0\<rparr>).
      0 \<le> sint (Label s) \<and> sint (Label s) \<le> 9"
    by simp
  from LabelVectors_one_hot [OF h] obtain res where
    r: "LabelVectors \<lparr>Samples = [\<lparr>Intensities = [], Label = 3\<rparr>], Width = 0, Height = 0\<rparr> = Return res"
    and l: "length res = length (Samples \<lparr>Samples = [\<lparr>Intensities = [], Label = 3\<rparr>], Width = 0, Height = 0\<rparr>)"
    and v: "\<forall>i<length (Samples \<lparr>Samples = [\<lparr>Intensities = [], Label = 3\<rparr>], Width = 0, Height = 0\<rparr>).
          length (res ! i) = 10 \<and>
          (\<forall>k<10. res ! i ! k =
             (if int k = sint (Label (Samples \<lparr>Samples = [\<lparr>Intensities = [], Label = 3\<rparr>],
                                                Width = 0, Height = 0\<rparr> ! i)) then 1 else 0))"
    by blast
  from v have "\<forall>k<10. res ! 0 ! k = (if int k = 3 then 1 else 0)" by simp
  then have "res ! 0 ! 3 = 1" "res ! 0 ! 4 = 0" by simp_all
  with r l show ?thesis by simp
qed

text \<open>
  C9. When some sample has a label outside \<open>[0, 9]\<close>, \<open>LabelVectors\<close> fails: the
  assignment \<open>res[i][sample.Label] = 1\<close> panics with an index out of range for the
  length 10, at such a label. There is no guard, clamp or skip.
\<close>

theorem LabelVectors_panics_out_of_range:
  assumes "\<exists>s\<in>set (Samples d). \<not> (0 \<le> sint (Label s) \<and> sint (Label s) \<le> 9)"
  shows "\<exists>L. LabelVectors d = Panic (IndexOutOfRange L 10) \<and> (L < 0 \<or> 9 < L) \<and>
             L \<in> (\<lambda>s. sint (Label s)) ` set (Samples d)"
  using label_vectors_out_of_range [OF assms] unfolding LabelVectors_def by force

theorem LabelVectors_panics_out_of_range_witness:
  "(\<exists>s\<in>set (Samples \<lparr>Samples = [\<lparr>Intensities = [], Label = 3\<rparr>, \<lparr>Intensities = [], Label = 10\<rparr>],
                          Width = 0, Height = 0\<rparr>).
      \<not> (0 \<le> sint (Label s) \<and> sint (Label s) \<le> 9)) \<and>
   (\<exists>L. LabelVectors \<lparr>Samples = [\<lparr>Intensities = [], Label = 3\<rparr>, \<lparr>Intensities = [], Label = 10\<rparr>],
                         Width = 0, Height = 0\<rparr>
          = Panic (IndexOutOfRange L 10) \<and> (L < 0 \<or> 9 < L))"
proof -
  have h: "\<exists>s\<in>set (Samples \<lparr>Samples = [\<lparr>Intensities = [], Label = 3\<rparr>, \<lparr>Intensities = [], Label = 10\<rparr>],
                          Width = 0, Height = 0\<rparr>).
      \<not> (0 \<le> sint (Label s) \<and> sint (Label s) \<le> 9)"
    by simp
  from LabelVectors_panics_out_of_range [OF h] h show ?thesis by blast
qed

subsection \<open>The assembled data set\<close>

text \<open>
  C2. Whenever \<open>loadDataSet\<close> returns a data set, the image decoder and the label
  decoder both succeeded, and the number of image blocks, the number of labels and
  the number of samples are all the \<open>count\<close> field of the image header; the
  dimensions of the data set are the \<open>width\<close> and \<open>height\<close> fields, and every
  sample has \<open>width * height\<close> intensities.
\<close>

theorem loadDataSet_counts:
  assumes "loadDataSet gz files prefix out = (out', Return d)"
  shows "\<exists>imageReader labelReader out1 blocks labels.
     assetReader gz files (prefix @ ''-images-idx3-ubyte.gz'') out = (out1, Return imageReader) \<and>
     readIntensities imageReader = Return (Inr (blocks, Width d, Height d)) \<and>
     assetReader gz files (prefix @ ''-labels-idx1-ubyte.gz'') out1 = (out', Return labelReader) \<and>
     readLabels labelReader (word_of_nat (length blocks)) = Return (Inr labels) \<and>
     length blocks = uint32_be_at imageReader 4 \<and>
     length labels = uint32_be_at imageReader 4 \<and>
     length (Samples d) = uint32_be_at imageReader 4 \<and>
     sint (Width d) = int (uint32_be_at imageReader 8) \<and>
     sint (Height d) = int (uint32_be_at imageReader 12) \<and>
     (\<forall>s\<in>set (Samples d).
        length (Intensities s) = uint32_be_at imageReader 8 * uint32_be_at imageReader 12)"
proof -
  from loadDataSet_assembled [OF assms] obtain imageReader labelReader out1 blocks labels where
    ar: "assetReader gz files (prefix @ ''-images-idx3-ubyte.gz'') out = (out1, Return imageReader)"
    and ri: "readIntensities imageReader = Return (Inr (blocks, Width d, Height d))"
    and al: "assetReader gz files (prefix @ ''-labels-idx1-ubyte.gz'') out1 = (out', Return labelReader)"
    and rl: "readLabels labelReader (word_of_nat (length blocks)) = Return (Inr labels)"
    and ll: "length labels = length blocks"
    and sd: "Samples d = map (\<lambda>(img, l). \<lparr>Intensities = map (\<lambda>x. float64_div (float64_of_uint8 x) 255) img,
                                     Label = l\<rparr>) (zip blocks labels)"
    by blast
  note shape = readIntensities_shape [OF ri]
  from shape have lb: "length blocks = uint32_be_at imageReader 4" by blast
  from shape have bl: "length (blocks ! j) = uint32_be_at imageReader 8 * uint32_be_at imageReader 12"
    if "j < length blocks" for j using that lb by metis
  have "length (Intensities s) = uint32_be_at imageReader 8 * uint32_be_at imageReader 12"
    if "s \<in> set (Samples d)" for s
  proof -
    from that obtain img l where "(img, l) \<in> set (zip blocks labels)"
      and s: "s = \<lparr>Intensities = map (\<lambda>x. float64_div (float64_of_uint8 x) 255) img, Label = l\<rparr>"
      unfolding sd by auto
    then have "img \<in> set blocks" by (auto dest: set_zip_leftD)
    then obtain j where "j < length blocks" "blocks ! j = img" by (auto simp: in_set_conv_nth)
    with bl show ?thesis by (auto simp: s)
  qed
  moreover have "length (Samples d) = uint32_be_at imageReader 4" by (simp add: sd ll lb [symmetric])
  moreover from shape have "sint (Width d) = int (uint32_be_at imageReader 8)"
    and "sint (Height d) = int (uint32_be_at imageReader 12)" by blast+
  ultimately show ?thesis using ar ri al rl ll lb by (metis (no_types, lifting))
qed

theorem loadDataSet_counts_witness:
  "loadDataSet Inr
     \<lparr>TrainData = [0, 0, 8, 3, 0, 0, 0, 2, 0, 0, 0, 2, 0, 0, 0, 2, 0, 255, 255, 0, 255, 0, 0, 255],
      TestData = [], TrainLabels = [0, 0, 8, 1, 0, 0, 0, 2, 3, 7], TestLabels = []\<rparr> ''train'' []
     = ([24, 10],
        Return \<lparr>Samples = [\<lparr>Intensities = [0, 1, 1, 0], Label = 3\<rparr>,
                            \<lparr>Intensities = [1, 0, 0, 1], Label = 7\<rparr>],
                 Width = 2, Height = 2\<rparr>) \<and>
   (\<exists>imageReader. length [\<lparr>Intensities = [0, 1, 1, 0 :: float64], Label = 3\<rparr>,
                            \<lparr>Intensities = [1, 0, 0, 1], Label = 7\<rparr>]
                     = uint32_be_at imageReader 4)"
proof -
  have run: "loadDataSet Inr
     \<lparr>TrainData = [0, 0, 8, 3, 0, 0, 0, 2, 0, 0, 0, 2, 0, 0, 0, 2, 0, 255, 255, 0, 255, 0, 0, 255],
      TestData = [], TrainLabels = [0, 0, 8, 1, 0, 0, 0, 2, 3, 7], TestLabels = []\<rparr> ''train'' []
     = ([24, 10],
        Return \<lparr>Samples = [\<lparr>Intensities = [0, 1, 1, 0], Label = 3\<rparr>,
                            \<lparr>Intensities = [1, 0, 0, 1], Label = 7\<rparr>],
                 Width = 2, Height = 2\<rparr>)"
    by code_simp
  from loadDataSet_counts [OF run] have "\<exists>imageReader.
      length (Samples \<lparr>Samples = [\<lparr>Intensities = [0, 1, 1, 0], Label = 3\<rparr>,
                            \<lparr>Intensities = [1, 0, 0, 1], Label = 7\<rparr>],
                 Width = 2, Height = 2\<rparr>) = uint32_be_at imageReader 4"
    by blast
  then show ?thesis using run by simp
qed

text \<open>
  C6. In a data set returned by \<open>loadDataSet\<close>, the intensities of the samples are
  the bytes of the image blocks, each converted to \<open>float64\<close> and divided by
  \<open>255.0\<close>; every intensity lies in \<open>[0, 1]\<close>. For each of the 256 bytes \<open>b\<close> the
  quotient \<open>float64(b) / 255.0\<close> lies in \<open>[0, 1]\<close> and differs from the rational
  number \<open>b / 255\<close> by the rounding only.
\<close>

theorem loadDataSet_normalises:
  assumes "loadDataSet gz files prefix out = (out', Return d)"
  shows "\<exists>imageReader out1 blocks.
     assetReader gz files (prefix @ ''-images-idx3-ubyte.gz'') out = (out1, Return imageReader) \<and>
     readIntensities imageReader = Return (Inr (blocks, Width d, Height d)) \<and>
     map Intensities (Samples d) = map (map (\<lambda>b. float64_div (float64_of_uint8 b) 255)) blocks \<and>
     (\<forall>s\<in>set (Samples d). \<forall>x\<in>set (Intensities s). 0 \<le> x \<and> x \<le> 1) \<and>
     (\<forall>b :: uint8. 0 \<le> float64_div (float64_of_uint8 b) 255 \<and>
                    float64_div (float64_of_uint8 b) 255 \<le> 1 \<and>
                    \<bar>float64_div (float64_of_uint8 b) 255 - of_nat (unat b) / 255\<bar> \<le> 1 / 2 ^ 53)"
proof -
  from loadDataSet_assembled [OF assms] obtain imageReader labelReader out1 blocks labels where
    ar: "assetReader gz files (prefix @ ''-images-idx3-ubyte.gz'') out = (out1, Return imageReader)"
    and ri: "readIntensities imageReader = Return (Inr (blocks, Width d, Height d))"
    and rl: "readLabels labelReader (word_of_nat (length blocks)) = Return (Inr labels)"
    and ll: "length labels = length blocks"
    and sd: "Samples d = map (\<lambda>(img, l). \<lparr>Intensities = map (\<lambda>x. float64_div (float64_of_uint8 x) 255) img,
                                     Label = l\<rparr>) (zip blocks labels)"
    by blast
  have "map Intensities (Samples d)
      = map (\<lambda>p. map (\<lambda>b. float64_div (float64_of_uint8 b) 255) (fst p)) (zip blocks labels)"
    unfolding sd by (simp add: case_prod_beta comp_def)
  also have "\<dots> = map (map (\<lambda>b. float64_div (float64_of_uint8 b) 255)) (map fst (zip blocks labels))"
    by (simp add: comp_def)
  also have "map fst (zip blocks labels) = blocks" using ll by simp
  finally have mi: "map Intensities (Samples d) = map (map (\<lambda>b. float64_div (float64_of_uint8 b) 255)) blocks" .
  have "0 \<le> x \<and> x \<le> 1" if "s \<in> set (Samples d)" "x \<in> set (Intensities s)" for s x
  proof -
    from that(1) have "Intensities s \<in> set (map Intensities (Samples d))" by simp
    then obtain img where "Intensities s = map (\<lambda>b. float64_div (float64_of_uint8 b) 255) img"
      unfolding mi by auto
    with that(2) obtain b where "x = float64_div (float64_of_uint8 b) 255" by auto
    then show ?thesis using normalised_unit_interval [of b] by simp
  qed
  then show ?thesis using ar ri mi normalised_unit_interval normalised_error by blast
qed

theorem loadDataSet_normalises_witness:
  "loadDataSet Inr
     \<lparr>TrainData = [0, 0, 8, 3, 0, 0, 0, 2, 0, 0, 0, 2, 0, 0, 0, 2, 0, 255, 128, 64, 255, 0, 0, 255],
      TestData = [], TrainLabels = [0, 0, 8, 1, 0, 0, 0, 2, 3, 7], TestLabels = []\<rparr> ''train'' []
     = ([24, 10],
        Return \<lparr>Samples =
                   [\<lparr>Intensities = [0, 1, 282578800148737 / 562949953421312,
                                     282578800148737 / 1125899906842624],
                     Label = 3\<rparr>,
                    \<lparr>Intensities = [1, 0, 0, 1], Label = 7\<rparr>],
                 Width = 2, Height = 2\<rparr>) \<and>
   list_all (\<lambda>x. 0 \<le> x \<and> x \<le> 1)
     [0, 1, 282578800148737 / 562949953421312, 282578800148737 / 1125899906842624 :: float64]"
proof -
  have run: "loadDataSet Inr
     \<lparr>TrainData = [0, 0, 8, 3, 0, 0, 0, 2, 0, 0, 0, 2, 0, 0, 0, 2, 0, 255, 128, 64, 255, 0, 0, 255],
      TestData = [], TrainLabels = [0, 0, 8, 1, 0, 0, 0, 2, 3, 7], TestLabels = []\<rparr> ''train'' []
     = ([24, 10],
        Return \<lparr>Samples =
                   [\<lparr>Intensities = [0, 1, 282578800148737 / 562949953421312,
                                     282578800148737 / 1125899906842624],
                     Label = 3\<rparr>,
                    \<lparr>Intensities = [1, 0, 0, 1], Label = 7\<rparr>],
                 Width = 2, Height = 2\<rparr>)"
    by code_simp
  from loadDataSet_normalises [OF run] have "\<forall>s\<in>set (Samples \<lparr>Samples =
                   [\<lparr>Intensities = [0, 1, 282578800148737 / 562949953421312,
                                     282578800148737 / 1125899906842624],
                     Label = 3\<rparr>,
                    \<lparr>Intensities = [1, 0, 0, 1], Label = 7\<rparr>],
                 Width = 2, Height = 2\<rparr>). \<forall>x\<in>set (Intensities s). 0 \<le> x \<and> x \<le> 1"
    by blast
  then have "list_all (\<lambda>x. 0 \<le> x \<and> x \<le> 1)
     [0, 1, 282578800148737 / 562949953421312, 282578800148737 / 1125899906842624 :: float64]"
    by simp
  with run show ?thesis by (rule conjI)
qed

subsection \<open>The decoders on a reader that fails\<close>

text \<open>
  On \<open>Stream e bs\<close> each function does what it does on the bytes \<open>bs\<close> alone,
  except that where the end of the bytes made it return an error, it now returns the
  reader's error \<open>e\<close> if that is not \<open>io.EOF\<close>. In particular the functions of this
  section are those of the sections above when \<open>e\<close> is \<open>io.EOF\<close>.
\<close>

lemma bufio_Discard_f_eq:
  "bufio_Discard_f (Stream e bs) n =
     (case bufio_Discard bs n of Inl err \<Rightarrow> Inl e | Inr r \<Rightarrow> Inr (Stream e r))"
  by (simp add: bufio_Discard_def)

lemma binary_Read_uint32_f_eq:
  "binary_Read_uint32_f (Stream e bs) =
     (case binary_Read_uint32 bs of
        Inl err \<Rightarrow> Inl (if e = io_EOF then err else e)
      | Inr (p, r) \<Rightarrow> Inr (p, Stream e r))"
  by (induction bs rule: binary_Read_uint32.induct) simp_all

lemma read_params_f_eq:
  "read_params_f k (Stream e bs) =
     (case read_params k bs of
        Inl err \<Rightarrow> Inl (if e = io_EOF then err else e)
      | Inr (ps, r) \<Rightarrow> Inr (ps, Stream e r))"
proof (induction k arbitrary: bs)
  case 0
  then show ?case by simp
next
  case (Suc k)
  show ?case
  proof (cases "binary_Read_uint32 bs")
    case (Inl err)
    then show ?thesis by (simp add: binary_Read_uint32_f_eq)
  next
    case (Inr pr)
    obtain p r where pr: "pr = (p, r)" by (cases pr)
    show ?thesis
      by (cases "read_params k r") (auto simp add: binary_Read_uint32_f_eq Inr pr Suc.IH)
  qed
qed

lemma read_images_f_eq:
  "read_images_f k width height (Stream e bs) =
     (case read_images k width height bs of
        Panic p \<Rightarrow> Panic p
      | Return (Inl err) \<Rightarrow> Return (Inl (if e = io_EOF then err else e))
      | Return (Inr results) \<Rightarrow> Return (Inr results))"
proof (induction k arbitrary: bs)
  case 0
  then show ?case by simp
next
  case (Suc k)
  show ?case
  proof (cases "sint (width * height) \<le> 0")
    case True
    then show ?thesis
      by (simp add: io_Copy_Limited_def Suc.IH split: outcome.split sum.split)
  next
    case pos: False
    show ?thesis
    proof (cases "nat (sint (width * height)) \<le> length bs")
      case True
      with pos show ?thesis
        by (simp add: io_Copy_Limited_def Suc.IH split: outcome.split sum.split)
    next
      case False
      with pos have "int (length bs) < sint (width * height)" by linarith
      with pos False show ?thesis
        by (simp add: io_Copy_Limited_def)
    qed
  qed
qed

lemma readIntensities_f_eq:
  "readIntensities_f (Stream e bs) =
     (case readIntensities bs of
        Panic p \<Rightarrow> Panic p
      | Return (Inl err) \<Rightarrow> Return (Inl (if e = io_EOF then err else e))
      | Return (Inr result) \<Rightarrow> Return (Inr result))"
  by (simp add: readIntensities_f_def readIntensities_def bufio_Discard_def read_params_f_eq
        read_images_f_eq Let_def split: sum.split prod.split outcome.split)

lemma read_label_bytes_f_eq:
  "read_label_bytes_f k (Stream e bs) =
     (case read_label_bytes k bs of Inl err \<Rightarrow> Inl e | Inr labels \<Rightarrow> Inr labels)"
proof (induction k arbitrary: bs)
  case 0
  then show ?case by simp
next
  case (Suc k)
  show ?case by (cases bs) (simp_all add: Suc.IH split: sum.split)
qed

lemma readLabels_f_eq:
  "readLabels_f (Stream e bs) count =
     (case readLabels bs count of
        Panic p \<Rightarrow> Panic p
      | Return (Inl err) \<Rightarrow> Return (Inl e)
      | Return (Inr labels) \<Rightarrow> Return (Inr labels))"
  by (simp add: readLabels_f_def readLabels_def bufio_Discard_def read_label_bytes_f_eq
        split: sum.split outcome.split)

lemma readIntensities_f_early_error:
  assumes "e \<noteq> io_EOF"
      and "length bs < 16 \<or>
           int (uint32_be_at bs 8 * uint32_be_at bs 12) < 9223372036854775808 \<and>
           length bs < 16 + uint32_be_at bs 4 * (uint32_be_at bs 8 * uint32_be_at bs 12)"
  shows "readIntensities_f (Stream e bs) = Return (Inl e)"
proof (cases "length bs < 16")
  case True
  then show ?thesis
    using assms(1) by (simp add: readIntensities_f_eq readIntensities_short)
next
  case False
  then have "16 \<le> length bs" by simp
  moreover from False assms(2)
  have "int (uint32_be_at bs 8 * uint32_be_at bs 12) < 9223372036854775808"
    and "length bs < 16 + uint32_be_at bs 4 * (uint32_be_at bs 8 * uint32_be_at bs 12)"
    by blast+
  ultimately have "readIntensities bs = Return (Inl (errors_New ''not enough data for image''))"
    by (rule readIntensities_truncated)
  then show ?thesis using assms(1) by (simp add: readIntensities_f_eq)
qed

lemma readLabels_f_early_error:
  assumes "0 \<le> sint count" and "length bs < 8 + nat (sint count)"
  shows "readLabels_f (Stream e bs) count = Return (Inl e)"
  using assms(2) by (simp add: readLabels_f_eq readLabels_eq [OF assms(1)])

lemma readIntensities_f_success:
  assumes "readIntensities_f (Stream e bs) = Return (Inr result)"
  shows "readIntensities bs = Return (Inr result)"
  using assms unfolding readIntensities_f_eq
  by (auto split: outcome.splits sum.splits)

lemma readLabels_f_success:
  assumes "readLabels_f (Stream e bs) count = Return (Inr labels)"
  shows "readLabels bs count = Return (Inr labels)"
  using assms unfolding readLabels_f_eq
  by (auto split: outcome.splits sum.splits)

lemma loadDataSet_f_Return:
  assumes "loadDataSet_f gz files prefix out = (out', Return d)"
  shows "\<exists>imageReader labelReader out1 blocks labels.
     assetReader_f gz files (prefix @ ''-images-idx3-ubyte.gz'') out = (out1, Return imageReader) \<and>
     readIntensities_f imageReader = Return (Inr (blocks, Width d, Height d)) \<and>
     assetReader_f gz files (prefix @ ''-labels-idx1-ubyte.gz'') out1 = (out', Return labelReader) \<and>
     readLabels_f labelReader (word_of_nat (length blocks)) = Return (Inr labels) \<and>
     make_samples 0 blocks labels = Return (Samples d)"
  using assms
  by (auto simp add: loadDataSet_f_def Let_def split: prod.splits outcome.splits sum.splits)

lemma decoded_lengths:
  assumes ri: "readIntensities_f imageReader = Return (Inr (blocks, w, h))"
      and rl: "readLabels_f labelReader (word_of_nat (length blocks)) = Return (Inr labels)"
  shows "length blocks < 4294967296 \<and> length labels = length blocks"
proof -
  obtain e bs where ir: "imageReader = Stream e bs" by (cases imageReader)
  obtain e' bs' where lr: "labelReader = Stream e' bs'" by (cases labelReader)
  from ri have "readIntensities bs = Return (Inr (blocks, w, h))"
    unfolding ir by (rule readIntensities_f_success)
  from readIntensities_shape [OF this] have "length blocks = uint32_be_at bs 4" by blast
  then have small: "length blocks < 4294967296" by (simp add: uint32_be_at_less)
  then have sc: "sint (word_of_nat (length blocks) :: go_int) = int (length blocks)"
    by (rule sint_word_of_nat)
  then have nn: "0 \<le> sint (word_of_nat (length blocks) :: go_int)" by simp
  from rl have "readLabels bs' (word_of_nat (length blocks)) = Return (Inr labels)"
    unfolding lr by (rule readLabels_f_success)
  then have "length labels = length blocks"
    unfolding readLabels_eq [OF nn] sc by (auto split: if_splits)
  with small show ?thesis ..
qed

lemma loadDataSet_f_assembled:
  assumes "loadDataSet_f gz files prefix out = (out', Return d)"
  shows "\<exists>imageReader labelReader out1 blocks labels.
     assetReader_f gz files (prefix @ ''-images-idx3-ubyte.gz'') out = (out1, Return imageReader) \<and>
     readIntensities_f imageReader = Return (Inr (blocks, Width d, Height d)) \<and>
     assetReader_f gz files (prefix @ ''-labels-idx1-ubyte.gz'') out1 = (out', Return labelReader) \<and>
     readLabels_f labelReader (word_of_nat (length blocks)) = Return (Inr labels) \<and>
     length labels = length blocks \<and>
     Samples d = map (\<lambda>(img, l). \<lparr>Intensities = map (\<lambda>x. float64_div (float64_of_uint8 x) 255) img,
                                     Label = l\<rparr>) (zip blocks labels)"
proof -
  from loadDataSet_f_Return [OF assms] obtain imageReader labelReader out1 blocks labels where
    ar: "assetReader_f gz files (prefix @ ''-images-idx3-ubyte.gz'') out = (out1, Return imageReader)"
    and ri: "readIntensities_f imageReader = Return (Inr (blocks, Width d, Height d))"
    and al: "assetReader_f gz files (prefix @ ''-labels-idx1-ubyte.gz'') out1 = (out', Return labelReader)"
    and rl: "readLabels_f labelReader (word_of_nat (length blocks)) = Return (Inr labels)"
    and ms: "make_samples 0 blocks labels = Return (Samples d)"
    by blast
  from decoded_lengths [OF ri rl] have ll: "length labels = length blocks" by blast
  then have "make_samples 0 blocks labels =
     Return (map (\<lambda>(img, l). \<lparr>Intensities = map (\<lambda>x. float64_div (float64_of_uint8 x) 255) img,
                              Label = l\<rparr>) (zip blocks (drop 0 labels)))"
    by (intro make_samples_eq) simp
  with ms have "Samples d = map (\<lambda>(img, l). \<lparr>Intensities = map (\<lambda>x. float64_div (float64_of_uint8 x) 255) img,
                                     Label = l\<rparr>) (zip blocks labels)"
    by simp
  with ar ri al rl ll show ?thesis by blast
qed

lemma assetReader_f_train:
  "assetReader_f gz files (''train'' @ ''-images-idx3-ubyte.gz'') out =
     (out @ [length (TrainData files)],
      case gz (TrainData files) of
        Inl err \<Rightarrow> Panic (PanicString (''could not decompress '' @ ''train'' @ ''-images-idx3-ubyte.gz: '' @ Error err))
      | Inr r \<Rightarrow> Return r)"
  "assetReader_f gz files (''train'' @ ''-labels-idx1-ubyte.gz'') out =
     (out @ [length (TrainLabels files)],
      case gz (TrainLabels files) of
        Inl err \<Rightarrow> Panic (PanicString (''could not decompress '' @ ''train'' @ ''-labels-idx1-ubyte.gz: '' @ Error err))
      | Inr r \<Rightarrow> Return r)"
  by (simp_all add: assetReader_f_def split: sum.split)

lemma assetReader_f_t10k:
  "assetReader_f gz files (''t10k'' @ ''-images-idx3-ubyte.gz'') out =
     (out @ [length (TestData files)],
      case gz (TestData files) of
        Inl err \<Rightarrow> Panic (PanicString (''could not decompress '' @ ''t10k'' @ ''-images-idx3-ubyte.gz: '' @ Error err))
      | Inr r \<Rightarrow> Return r)"
  "assetReader_f gz files (''t10k'' @ ''-labels-idx1-ubyte.gz'') out =
     (out @ [length (TestLabels files)],
      case gz (TestLabels files) of
        Inl err \<Rightarrow> Panic (PanicString (''could not decompress '' @ ''t10k'' @ ''-labels-idx1-ubyte.gz: '' @ Error err))
      | Inr r \<Rightarrow> Return r)"
  by (simp_all add: assetReader_f_def split: sum.split)

lemma loadDataSet_f_outcomes:
  assumes im: "\<And>out. assetReader_f gz files (prefix @ ''-images-idx3-ubyte.gz'') out =
     (out @ [length imageData],
      case gz imageData of
        Inl err \<Rightarrow> Panic (PanicString (''could not decompress '' @ prefix @ ''-images-idx3-ubyte.gz: '' @ Error err))
      | Inr r \<Rightarrow> Return r)"
    and lb: "\<And>out. assetReader_f gz files (prefix @ ''-labels-idx1-ubyte.gz'') out =
     (out @ [length labelData],
      case gz labelData of
        Inl err \<Rightarrow> Panic (PanicString (''could not decompress '' @ prefix @ ''-labels-idx1-ubyte.gz: '' @ Error err))
      | Inr r \<Rightarrow> Return r)"
  shows "(\<forall>err. gz imageData = Inl err \<longrightarrow>
            snd (loadDataSet_f gz files prefix out) =
              Panic (PanicString (''could not decompress '' @ prefix @ ''-images-idx3-ubyte.gz: '' @ Error err))) \<and>
         (\<forall>r err. gz imageData = Inr r \<and> readIntensities_f r = Return (Inl err) \<longrightarrow>
            snd (loadDataSet_f gz files prefix out) =
              Panic (PanicString (''failed to read images: '' @ Error err))) \<and>
         (\<forall>e bs. gz imageData = Inr (Stream e bs) \<and> e \<noteq> io_EOF \<and>
            (length bs < 16 \<or>
             int (uint32_be_at bs 8 * uint32_be_at bs 12) < 9223372036854775808 \<and>
             length bs < 16 + uint32_be_at bs 4 * (uint32_be_at bs 8 * uint32_be_at bs 12)) \<longrightarrow>
            snd (loadDataSet_f gz files prefix out) =
              Panic (PanicString (''failed to read images: '' @ Error e))) \<and>
         (\<forall>r p. gz imageData = Inr r \<and> readIntensities_f r = Panic p \<longrightarrow>
            snd (loadDataSet_f gz files prefix out) = Panic p) \<and>
         (\<forall>r blocks w h err.
            gz imageData = Inr r \<and> readIntensities_f r = Return (Inr (blocks, w, h)) \<and>
            gz labelData = Inl err \<longrightarrow>
            snd (loadDataSet_f gz files prefix out) =
              Panic (PanicString (''could not decompress '' @ prefix @ ''-labels-idx1-ubyte.gz: '' @ Error err))) \<and>
         (\<forall>r blocks w h lr err.
            gz imageData = Inr r \<and> readIntensities_f r = Return (Inr (blocks, w, h)) \<and>
            gz labelData = Inr lr \<and> readLabels_f lr (word_of_nat (length blocks)) = Return (Inl err) \<longrightarrow>
            snd (loadDataSet_f gz files prefix out) =
              Panic (PanicString (''failed to read labels: '' @ Error err))) \<and>
         (\<forall>r blocks w h e bs.
            gz imageData = Inr r \<and> readIntensities_f r = Return (Inr (blocks, w, h)) \<and>
            gz labelData = Inr (Stream e bs) \<and> length bs < 8 + length blocks \<longrightarrow>
            snd (loadDataSet_f gz files prefix out) =
              Panic (PanicString (''failed to read labels: '' @ Error e))) \<and>
         (\<forall>d. snd (loadDataSet_f gz files prefix out) = Return d \<longrightarrow>
            (\<exists>r lr blocks labels.
               gz imageData = Inr r \<and> readIntensities_f r = Return (Inr (blocks, Width d, Height d)) \<and>
               gz labelData = Inr lr \<and> readLabels_f lr (word_of_nat (length blocks)) = Return (Inr labels) \<and>
               length labels = length blocks \<and>
               Samples d = map (\<lambda>(img, l). \<lparr>Intensities = map (\<lambda>x. float64_div (float64_of_uint8 x) 255) img,
                                               Label = l\<rparr>) (zip blocks labels)))"
proof (intro conjI allI impI)
  fix err assume "gz imageData = Inl err"
  then show "snd (loadDataSet_f gz files prefix out) =
      Panic (PanicString (''could not decompress '' @ prefix @ ''-images-idx3-ubyte.gz: '' @ Error err))"
    by (simp add: loadDataSet_f_def im Let_def)
next
  fix r err assume "gz imageData = Inr r \<and> readIntensities_f r = Return (Inl err)"
  then show "snd (loadDataSet_f gz files prefix out) = Panic (PanicString (''failed to read images: '' @ Error err))"
    by (simp add: loadDataSet_f_def im Let_def)
next
  fix e bs
  assume a: "gz imageData = Inr (Stream e bs) \<and> e \<noteq> io_EOF \<and>
            (length bs < 16 \<or>
             int (uint32_be_at bs 8 * uint32_be_at bs 12) < 9223372036854775808 \<and>
             length bs < 16 + uint32_be_at bs 4 * (uint32_be_at bs 8 * uint32_be_at bs 12))"
  then have "readIntensities_f (Stream e bs) = Return (Inl e)"
    by (intro readIntensities_f_early_error) blast+
  with a show "snd (loadDataSet_f gz files prefix out) = Panic (PanicString (''failed to read images: '' @ Error e))"
    by (simp add: loadDataSet_f_def im Let_def)
next
  fix r p assume "gz imageData = Inr r \<and> readIntensities_f r = Panic p"
  then show "snd (loadDataSet_f gz files prefix out) = Panic p"
    by (simp add: loadDataSet_f_def im Let_def)
next
  fix r blocks w h err
  assume "gz imageData = Inr r \<and> readIntensities_f r = Return (Inr (blocks, w, h)) \<and> gz labelData = Inl err"
  then show "snd (loadDataSet_f gz files prefix out) =
      Panic (PanicString (''could not decompress '' @ prefix @ ''-labels-idx1-ubyte.gz: '' @ Error err))"
    by (simp add: loadDataSet_f_def im lb Let_def)
next
  fix r blocks w h lr err
  assume "gz imageData = Inr r \<and> readIntensities_f r = Return (Inr (blocks, w, h)) \<and>
            gz labelData = Inr lr \<and> readLabels_f lr (word_of_nat (length blocks)) = Return (Inl err)"
  then show "snd (loadDataSet_f gz files prefix out) = Panic (PanicString (''failed to read labels: '' @ Error err))"
    by (simp add: loadDataSet_f_def im lb Let_def)
next
  fix r blocks w h e bs
  assume a: "gz imageData = Inr r \<and> readIntensities_f r = Return (Inr (blocks, w, h)) \<and>
            gz labelData = Inr (Stream e bs) \<and> length bs < 8 + length blocks"
  obtain e' bs' where r: "r = Stream e' bs'" by (cases r)
  from a have "readIntensities bs' = Return (Inr (blocks, w, h))"
    unfolding r by (intro readIntensities_f_success [of e']) simp
  from readIntensities_shape [OF this] have "length blocks = uint32_be_at bs' 4" by blast
  then have "length blocks < 4294967296" by (simp add: uint32_be_at_less)
  then have sc: "sint (word_of_nat (length blocks) :: go_int) = int (length blocks)"
    by (rule sint_word_of_nat)
  then have nn: "0 \<le> sint (word_of_nat (length blocks) :: go_int)" by simp
  have "readLabels_f (Stream e bs) (word_of_nat (length blocks)) = Return (Inl e)"
    using a by (intro readLabels_f_early_error [OF nn]) (simp add: sc)
  with a show "snd (loadDataSet_f gz files prefix out) = Panic (PanicString (''failed to read labels: '' @ Error e))"
    by (simp add: loadDataSet_f_def im lb Let_def)
next
  fix d assume "snd (loadDataSet_f gz files prefix out) = Return d"
  then have "loadDataSet_f gz files prefix out = (fst (loadDataSet_f gz files prefix out), Return d)"
    by (metis prod.collapse)
  from loadDataSet_f_assembled [OF this] obtain imageReader labelReader out1 blocks labels where
    ar: "assetReader_f gz files (prefix @ ''-images-idx3-ubyte.gz'') out = (out1, Return imageReader)"
    and ri: "readIntensities_f imageReader = Return (Inr (blocks, Width d, Height d))"
    and al: "assetReader_f gz files (prefix @ ''-labels-idx1-ubyte.gz'') out1
               = (fst (loadDataSet_f gz files prefix out), Return labelReader)"
    and rl: "readLabels_f labelReader (word_of_nat (length blocks)) = Return (Inr labels)"
    and ll: "length labels = length blocks"
    and sd: "Samples d = map (\<lambda>(img, l). \<lparr>Intensities = map (\<lambda>x. float64_div (float64_of_uint8 x) 255) img,
                                     Label = l\<rparr>) (zip blocks labels)"
    by blast
  from ar have "gz imageData = Inr imageReader" unfolding im by (auto split: sum.splits)
  moreover from al have "gz labelData = Inr labelReader" unfolding lb by (auto split: sum.splits)
  ultimately show "\<exists>r lr blocks labels.
               gz imageData = Inr r \<and> readIntensities_f r = Return (Inr (blocks, Width d, Height d)) \<and>
               gz labelData = Inr lr \<and> readLabels_f lr (word_of_nat (length blocks)) = Return (Inr labels) \<and>
               length labels = length blocks \<and>
               Samples d = map (\<lambda>(img, l). \<lparr>Intensities = map (\<lambda>x. float64_div (float64_of_uint8 x) 255) img,
                                               Label = l\<rparr>) (zip blocks labels)"
    using ri rl ll sd by blast
qed

lemma loadDataSet_f_clean:
  "loadDataSet_f (\<lambda>data. map_sum id (Stream io_EOF) (gz data)) files prefix out
     = loadDataSet gz files prefix out"
proof -
  have ar: "assetReader_f (\<lambda>data. map_sum id (Stream io_EOF) (gz data)) files name out =
      (case assetReader gz files name out of
         (out', Panic p) \<Rightarrow> (out', Panic p)
       | (out', Return r) \<Rightarrow> (out', Return (Stream io_EOF r)))" for name out
    by (simp add: assetReader_f_def assetReader_def split: sum.split)
  have ri: "readIntensities_f (Stream io_EOF bs) = readIntensities bs" for bs
    by (simp add: readIntensities_f_eq split: outcome.split sum.split)
  have rl: "readLabels_f (Stream io_EOF bs) count = readLabels bs count" for bs count
  proof (cases "readLabels bs count")
    case (Panic p)
    then show ?thesis by (simp add: readLabels_f_eq)
  next
    case (Return res)
    then have "res = Inl io_EOF \<or> (\<exists>labels. res = Inr labels)"
      by (cases res)
        (auto simp add: readLabels_def bufio_Discard_def read_label_bytes_eq
           split: if_splits outcome.splits sum.splits)
    with Return show ?thesis by (auto simp add: readLabels_f_eq)
  qed
  show ?thesis
    unfolding loadDataSet_f_def loadDataSet_def Let_def ar
    by (simp add: ri rl split: prod.split outcome.split sum.split)
qed

lemma LoadTrainingDataSet_f_clean:
  "LoadTrainingDataSet_f (\<lambda>data. map_sum id (Stream io_EOF) (gz data)) files out
     = LoadTrainingDataSet gz files out"
  by (simp add: LoadTrainingDataSet_f_def LoadTrainingDataSet_def loadDataSet_f_clean)

lemma LoadTestingDataSet_f_clean:
  "LoadTestingDataSet_f (\<lambda>data. map_sum id (Stream io_EOF) (gz data)) files out
     = LoadTestingDataSet gz files out"
  by (simp add: LoadTestingDataSet_f_def LoadTestingDataSet_def loadDataSet_f_clean)

subsection \<open>The entry points\<close>

text \<open>
  C10, as the code has it. \<open>LoadTrainingDataSet\<close> and \<open>LoadTestingDataSet\<close> return no
  error value: the outcome is a panic or a data set. They panic with a message
  \<^item> when \<open>gzip.NewReader\<close> fails on the image file or on the label file
    (\<open>could not decompress\<close>, the file name and the error);
  \<^item> when a decoder returns an error (\<open>failed to read images\<close> or
    \<open>failed to read labels\<close>, and the error);
  \<^item> so in particular when the decompressing reader fails before the image decoder
    has the 16 header bytes and the blocks the header announces, or before the label
    decoder has its 8 + count bytes: the message then carries the reader's error.

  A panic of the image decoder is passed on. A data set that is returned is complete:
  its samples are all the decoded image blocks, normalised, each with its label.
\<close>

theorem Load_panics_on_reported_failure:
  assumes "(load, imageData, labelData, prefix) =
             (LoadTrainingDataSet_f gz files out, TrainData files, TrainLabels files, ''train'') \<or>
           (load, imageData, labelData, prefix) =
             (LoadTestingDataSet_f gz files out, TestData files, TestLabels files, ''t10k'')"
  shows "((\<exists>p. snd load = Panic p) \<or> (\<exists>d. snd load = Return d)) \<and>
         (\<forall>err. gz imageData = Inl err \<longrightarrow>
            snd load =
              Panic (PanicString (''could not decompress '' @ prefix @ ''-images-idx3-ubyte.gz: '' @ Error err))) \<and>
         (\<forall>r err. gz imageData = Inr r \<and> readIntensities_f r = Return (Inl err) \<longrightarrow>
            snd load = Panic (PanicString (''failed to read images: '' @ Error err))) \<and>
         (\<forall>e bs. gz imageData = Inr (Stream e bs) \<and> e \<noteq> io_EOF \<and>
            (length bs < 16 \<or>
             int (uint32_be_at bs 8 * uint32_be_at bs 12) < 9223372036854775808 \<and>
             length bs < 16 + uint32_be_at bs 4 * (uint32_be_at bs 8 * uint32_be_at bs 12)) \<longrightarrow>
            snd load = Panic (PanicString (''failed to read images: '' @ Error e))) \<and>
         (\<forall>r p. gz imageData = Inr r \<and> readIntensities_f r = Panic p \<longrightarrow> snd load = Panic p) \<and>
         (\<forall>r blocks w h err.
            gz imageData = Inr r \<and> readIntensities_f r = Return (Inr (blocks, w, h)) \<and>
            gz labelData = Inl err \<longrightarrow>
            snd load =
              Panic (PanicString (''could not decompress '' @ prefix @ ''-labels-idx1-ubyte.gz: '' @ Error err))) \<and>
         (\<forall>r blocks w h lr err.
            gz imageData = Inr r \<and> readIntensities_f r = Return (Inr (blocks, w, h)) \<and>
            gz labelData = Inr lr \<and> readLabels_f lr (word_of_nat (length blocks)) = Return (Inl err) \<longrightarrow>
            snd load = Panic (PanicString (''failed to read labels: '' @ Error err))) \<and>
         (\<forall>r blocks w h e bs.
            gz imageData = Inr r \<and> readIntensities_f r = Return (Inr (blocks, w, h)) \<and>
            gz labelData = Inr (Stream e bs) \<and> length bs < 8 + length blocks \<longrightarrow>
            snd load = Panic (PanicString (''failed to read labels: '' @ Error e))) \<and>
         (\<forall>d. snd load = Return d \<longrightarrow>
            (\<exists>r lr blocks labels.
               gz imageData = Inr r \<and> readIntensities_f r = Return (Inr (blocks, Width d, Height d)) \<and>
               gz labelData = Inr lr \<and> readLabels_f lr (word_of_nat (length blocks)) = Return (Inr labels) \<and>
               length labels = length blocks \<and>
               Samples d = map (\<lambda>(img, l). \<lparr>Intensities = map (\<lambda>x. float64_div (float64_of_uint8 x) 255) img,
                                               Label = l\<rparr>) (zip blocks labels)))"
proof -
  have ex: "(\<exists>p. snd load = Panic p) \<or> (\<exists>d. snd load = Return d)"
    by (cases "snd load") auto
  from assms show ?thesis
  proof
    assume "(load, imageData, labelData, prefix) =
      (LoadTrainingDataSet_f gz files out, TrainData files, TrainLabels files, ''train'')"
    then have eq: "load = loadDataSet_f gz files ''train'' out" "imageData = TrainData files"
      "labelData = TrainLabels files" "prefix = ''train''"
      by (simp_all add: LoadTrainingDataSet_f_def)
    show ?thesis
      using ex loadDataSet_f_outcomes [of gz files "''train''" "TrainData files" "TrainLabels files" out,
          OF assetReader_f_train(1) assetReader_f_train(2)]
      unfolding eq by (rule conjI)
  next
    assume "(load, imageData, labelData, prefix) =
      (LoadTestingDataSet_f gz files out, TestData files, TestLabels files, ''t10k'')"
    then have eq: "load = loadDataSet_f gz files ''t10k'' out" "imageData = TestData files"
      "labelData = TestLabels files" "prefix = ''t10k''"
      by (simp_all add: LoadTestingDataSet_f_def)
    show ?thesis
      using ex loadDataSet_f_outcomes [of gz files "''t10k''" "TestData files" "TestLabels files" out,
          OF assetReader_f_t10k(1) assetReader_f_t10k(2)]
      unfolding eq by (rule conjI)
  qed
qed

text \<open>
  An instance: \<open>TestData\<close> is a gzip file of one stored block that is cut off one
  byte before the end of its data, an image stream with \<open>count = 1\<close>, \<open>width = 2\<close>,
  \<open>height = 1\<close>. \<open>gzip.NewReader\<close> succeeds on it; the reader delivers the 17 bytes
  that are there (the file without the 15 bytes of its headers) and then reports
  \<open>io.ErrUnexpectedEOF\<close>.
\<close>

theorem Load_panics_on_reported_failure_witness:
  "snd (LoadTestingDataSet_f (Inr \<circ> Stream io_ErrUnexpectedEOF \<circ> drop 15)
          \<lparr>TrainData = [],
           TestData = [31, 139, 8, 0, 0, 0, 0, 0, 4, 3, 1, 18, 0, 237, 255,
                       0, 0, 8, 3, 0, 0, 0, 1, 0, 0, 0, 2, 0, 0, 0, 1, 255],
           TrainLabels = [], TestLabels = []\<rparr> [])
     = Panic (PanicString (''failed to read images: '' @ Error io_ErrUnexpectedEOF))"
proof -
  let ?gz = "Inr \<circ> Stream io_ErrUnexpectedEOF \<circ> drop 15 :: uint8 list \<Rightarrow> error + stream"
  let ?files = "\<lparr>TrainData = [],
           TestData = [31, 139, 8, 0, 0, 0, 0, 0, 4, 3, 1, 18, 0, 237, 255,
                       0, 0, 8, 3, 0, 0, 0, 1, 0, 0, 0, 2, 0, 0, 0, 1, 255 :: uint8],
           TrainLabels = [], TestLabels = []\<rparr>"
  let ?bs = "[0, 0, 8, 3, 0, 0, 0, 1, 0, 0, 0, 2, 0, 0, 0, 1, 255 :: uint8]"
  have sel: "(LoadTestingDataSet_f ?gz ?files [], TestData ?files, TestLabels ?files, ''t10k'')
      = (LoadTrainingDataSet_f ?gz ?files [], TrainData ?files, TrainLabels ?files, ''train'') \<or>
     (LoadTestingDataSet_f ?gz ?files [], TestData ?files, TestLabels ?files, ''t10k'')
      = (LoadTestingDataSet_f ?gz ?files [], TestData ?files, TestLabels ?files, ''t10k'')"
    by simp
  have im: "?gz (TestData ?files) = Inr (Stream io_ErrUnexpectedEOF ?bs)" by simp
  have ne: "io_ErrUnexpectedEOF \<noteq> io_EOF" by simp
  have short: "int (uint32_be_at ?bs 8 * uint32_be_at ?bs 12) < 9223372036854775808 \<and>
     length ?bs < 16 + uint32_be_at ?bs 4 * (uint32_be_at ?bs 8 * uint32_be_at ?bs 12)"
    by (simp add: uint32_be_at_def)
  note early = Load_panics_on_reported_failure [OF sel, THEN conjunct2, THEN conjunct2,
      THEN conjunct2, THEN conjunct1, rule_format, of io_ErrUnexpectedEOF ?bs]
  have "?gz (TestData ?files) = Inr (Stream io_ErrUnexpectedEOF ?bs) \<and>
      io_ErrUnexpectedEOF \<noteq> io_EOF \<and>
      (length ?bs < 16 \<or>
       int (uint32_be_at ?bs 8 * uint32_be_at ?bs 12) < 9223372036854775808 \<and>
       length ?bs < 16 + uint32_be_at ?bs 4 * (uint32_be_at ?bs 8 * uint32_be_at ?bs 12))"
    using im ne short by blast
  then show ?thesis by (rule early)
qed

text \<open>
  C10 as stated (a panic on any decompression failure) does not hold. The decoders
  read exactly the bytes the header announces: the \<open>LimitedReader\<close> reports \<open>io.EOF\<close>
  after \<open>width * height\<close> bytes without reading further, and \<open>ReadByte\<close> is called
  \<open>count\<close> times. An error that the decompressor reports after the last of these
  bytes, as it does for a file whose checksum does not match its data, is held by
  the \<open>bufio.Reader\<close> and never looked at.

  Here \<open>TestData\<close> and \<open>TestLabels\<close> are gzip files of one stored block each, an
  image stream of one image of one pixel and a label stream of one label, and in both
  the first byte of the CRC-32 is changed. \<open>gzip.NewReader\<close> succeeds on such a
  file; the reader delivers the stored bytes (the file without the 15 bytes of its
  headers and the 8 bytes of its trailer) and then reports \<open>gzip: invalid checksum\<close>.
  \<open>LoadTestingDataSet\<close> returns the data set.
\<close>

theorem Load_returns_despite_checksum_error:
  "snd (LoadTestingDataSet_f
          (Inr \<circ> Stream (errors_New ''gzip: invalid checksum'') \<circ> rev \<circ> drop 8 \<circ> rev \<circ> drop 15)
          \<lparr>TrainData = [],
           TestData = [31, 139, 8, 0, 0, 0, 0, 0, 4, 3, 1, 17, 0, 238, 255,
                       0, 0, 8, 3, 0, 0, 0, 1, 0, 0, 0, 1, 0, 0, 0, 1, 255,
                       73, 126, 128, 106, 17, 0, 0, 0],
           TrainLabels = [],
           TestLabels = [31, 139, 8, 0, 0, 0, 0, 0, 4, 3, 1, 9, 0, 246, 255,
                         0, 0, 8, 1, 0, 0, 0, 1, 7,
                         113, 45, 197, 153, 9, 0, 0, 0]\<rparr> [])
     = Return \<lparr>Samples = [\<lparr>Intensities = [1], Label = 7\<rparr>], Width = 1, Height = 1\<rparr>"
  by code_simp

end
